theory Spec2Isabelle
  imports Complex_Main "HOL-Library.AList" "HOL-Library.Log_Nat"
begin

section \<open>Constants of both scripts\<close>

definition YEAR_MIN :: int where
  "YEAR_MIN = 2015"

definition YEAR_MAX :: int where
  "YEAR_MAX = 2026"

section \<open>Python strings and integers\<close>

text \<open>
  Python \<^verbatim>\<open>str\<close> values are modelled as \<open>string\<close>; only ASCII letters, digits and
  white space are interpreted by the functions below.
\<close>

definition is_digit :: "char \<Rightarrow> bool" where
  "is_digit c = (let n = (of_char c :: nat) in 48 \<le> n \<and> n \<le> 57)"

definition digit_val :: "char \<Rightarrow> nat" where
  "digit_val c = (of_char c :: nat) - 48"

definition is_space :: "char \<Rightarrow> bool" where
  "is_space c = (let n = (of_char c :: nat) in (9 \<le> n \<and> n \<le> 13) \<or> (28 \<le> n \<and> n \<le> 32))"

definition lower_char :: "char \<Rightarrow> char" where
  "lower_char c =
     (case map_of (zip ''ABCDEFGHIJKLMNOPQRSTUVWXYZ'' ''abcdefghijklmnopqrstuvwxyz'') c of
        None \<Rightarrow> c
      | Some d \<Rightarrow> d)"

text \<open>\<^verbatim>\<open>s.lower()\<close>\<close>

definition lower :: "string \<Rightarrow> string" where
  "lower s = map lower_char s"

text \<open>\<^verbatim>\<open>s.startswith(p)\<close>\<close>

definition startswith :: "string \<Rightarrow> string \<Rightarrow> bool" where
  "startswith s p = (take (length p) s = p)"

text \<open>\<^verbatim>\<open>sub in s\<close>\<close>

fun contains :: "string \<Rightarrow> string \<Rightarrow> bool" where
  "contains sub [] = (sub = [])"
| "contains sub (c # cs) = (startswith (c # cs) sub \<or> contains sub cs)"

text \<open>\<^verbatim>\<open>s.strip()\<close>\<close>

definition strip :: "string \<Rightarrow> string" where
  "strip s = rev (dropWhile is_space (rev (dropWhile is_space s)))"

text \<open>\<^verbatim>\<open>s.isdigit()\<close>\<close>

definition isdigit :: "string \<Rightarrow> bool" where
  "isdigit s = (s \<noteq> [] \<and> list_all is_digit s)"

text \<open>
  \<^verbatim>\<open>int(s)\<close> on a string: surrounding white space, an optional sign, then decimal
  digits, where single underscores may separate digits. \<open>None\<close> stands for the
  \<^verbatim>\<open>ValueError\<close> that Python raises on any other string.
\<close>

fun int_digits :: "nat \<Rightarrow> string \<Rightarrow> nat option" where
  "int_digits acc [] = Some acc"
| "int_digits acc [c] = (if is_digit c then Some (10 * acc + digit_val c) else None)"
| "int_digits acc (c # d # cs) =
     (if is_digit c then int_digits (10 * acc + digit_val c) (d # cs)
      else if c = CHR ''_'' \<and> is_digit d then int_digits (10 * acc + digit_val d) cs
      else None)"

definition int_unsigned :: "string \<Rightarrow> nat option" where
  "int_unsigned s =
     (case s of
        [] \<Rightarrow> None
      | c # cs \<Rightarrow> if is_digit c then int_digits (digit_val c) cs else None)"

definition py_int :: "string \<Rightarrow> int option" where
  "py_int s =
     (case strip s of
        [] \<Rightarrow> None
      | c # cs \<Rightarrow>
          if c = CHR ''-'' then map_option (\<lambda>n. - int n) (int_unsigned cs)
          else if c = CHR ''+'' then map_option int (int_unsigned cs)
          else map_option int (int_unsigned (c # cs)))"

text \<open>\<^verbatim>\<open>str(n)\<close> for an integer, and the format \<^verbatim>\<open>{i:05d}\<close>.\<close>

definition digit_char :: "nat \<Rightarrow> char" where
  "digit_char d = ''0123456789'' ! d"

function str_nat :: "nat \<Rightarrow> string" where
  "str_nat n = (if n < 10 then [digit_char n] else str_nat (n div 10) @ [digit_char (n mod 10)])"
  by pat_completeness auto
termination
  by (relation "measure id") auto

definition str_int :: "int \<Rightarrow> string" where
  "str_int i = (if i < 0 then CHR ''-'' # str_nat (nat (- i)) else str_nat (nat i))"

definition fmt_05d :: "nat \<Rightarrow> string" where
  "fmt_05d i = (let s = str_nat i in replicate (5 - length s) (CHR ''0'') @ s)"

text \<open>\<^verbatim>\<open>os.path.join(a, *p)\<close> of posixpath.\<close>

definition path_join2 :: "string \<Rightarrow> string \<Rightarrow> string" where
  "path_join2 path b =
     (if startswith b ''/'' then b
      else if path = [] \<or> last path = CHR ''/'' then path @ b
      else path @ ''/'' @ b)"

definition os_path_join :: "string \<Rightarrow> string list \<Rightarrow> string" where
  "os_path_join a p = foldl path_join2 a p"

section \<open>Errors and the outside world\<close>

datatype error =
    RequestException
  | HTTPError int
  | RuntimeError string
  | ValueError
  | KeyError string
  | BrowserError
  | FileNotFoundError
  | OverflowError
  | ZeroDivisionError

text \<open>
  A \<^verbatim>\<open>requests.Response\<close>: status code and decoded text.
\<close>

datatype response = Response (status_code: int) (text_of: string)

text \<open>
  The mutable world of a run: the cache files (path to the text written), the number
  of \<^verbatim>\<open>requests.get\<close> calls made, the number of cache files read, the seconds slept
  and the number of pages loaded in the headless browser. The file system is a POSIX
  one. Directories are not part of the world: a directory that has a name can be
  created, and a cache path is taken to name a file (\<open>names_file\<close> below), as the
  paths built by the two callers of \<^verbatim>\<open>cache_get\<close> do. A delay is a finite float that
  \<^verbatim>\<open>time.sleep\<close> accepts.
\<close>

record world =
  files :: "string \<rightharpoonup> string"
  requests :: nat
  reads :: nat
  slept :: rat
  renders :: nat

text \<open>
  The network answers a request for a URL; the answer may depend on how many requests
  were made before. \<open>Inl\<close> is an exception raised by \<^verbatim>\<open>requests.get\<close> itself.
\<close>

type_synonym network = "string \<Rightarrow> nat \<Rightarrow> error + response"

text \<open>
  \<^verbatim>\<open>requests.get(url, headers=HEADERS, timeout=30)\<close>; a URL of \<^verbatim>\<open>None\<close> is
  rejected by the library before anything is sent.
\<close>

definition requests_get :: "network \<Rightarrow> string option \<Rightarrow> world \<Rightarrow> (error + response) \<times> world" where
  "requests_get net url w =
     (case url of
        None \<Rightarrow> (Inl RequestException, w)
      | Some u \<Rightarrow> (net u (requests w), w\<lparr>requests := requests w + 1\<rparr>))"

text \<open>\<^verbatim>\<open>r.raise_for_status()\<close>\<close>

definition raise_for_status :: "response \<Rightarrow> error + unit" where
  "raise_for_status r =
     (if 400 \<le> status_code r \<and> status_code r < 600 then Inl (HTTPError (status_code r)) else Inr ())"

section \<open>Cache store and block classifier\<close>

text \<open>
  \<^verbatim>\<open>os.path.dirname(p)\<close> of posixpath: the part up to the last slash, without its
  trailing slashes unless it consists of slashes only.
\<close>

definition dirname :: "string \<Rightarrow> string" where
  "dirname p =
     (let head = rev (dropWhile (\<lambda>c. c \<noteq> CHR ''/'') (rev p))
      in if head \<noteq> [] \<and> \<not> list_all (\<lambda>c. c = CHR ''/'') head
         then rev (dropWhile (\<lambda>c. c = CHR ''/'') (rev head))
         else head)"



text \<open>
  \<^verbatim>\<open>ensure_dir(p)\<close>, that is \<^verbatim>\<open>os.makedirs(p, exist_ok=True)\<close>: the empty path cannot
  be created.
\<close>

definition ensure_dir :: "string \<Rightarrow> error + unit" where
  "ensure_dir p = (if p = [] then Inl FileNotFoundError else Inr ())"

text \<open>
  Reading a file opened in text mode translates line ends: \<^verbatim>\<open>\r\n\<close> and a lone
  \<^verbatim>\<open>\r\<close> are both read as \<^verbatim>\<open>\n\<close>. Writing in text mode leaves the text as it is.
\<close>

fun universal_newlines :: "string \<Rightarrow> string" where
  "universal_newlines [] = []"
| "universal_newlines [c] = (if c = CHR 0x0D then [CHR 0x0A] else [c])"
| "universal_newlines (c # d # cs) =
     (if c = CHR 0x0D then
        (if d = CHR 0x0A then CHR 0x0A # universal_newlines cs
         else CHR 0x0A # universal_newlines (d # cs))
      else c # universal_newlines (d # cs))"

text \<open>\<^verbatim>\<open>cache_get(url, cache_path, sleep_s, force)\<close>\<close>

definition cache_get ::
  "network \<Rightarrow> string option \<Rightarrow> string \<Rightarrow> rat \<Rightarrow> bool \<Rightarrow> world \<Rightarrow> (error + string) \<times> world" where
  "cache_get net url cache_path sleep_s force w =
     (case (if force then None else files w cache_path) of
        Some stored \<Rightarrow> (Inr (universal_newlines stored), w\<lparr>reads := reads w + 1\<rparr>)
      | None \<Rightarrow>
          (let w1 = (if sleep_s > 0 then w\<lparr>slept := slept w + sleep_s\<rparr> else w)
           in case requests_get net url w1 of
                (Inl e, w2) \<Rightarrow> (Inl e, w2)
              | (Inr r, w2) \<Rightarrow>
                  (case raise_for_status r of
                     Inl e \<Rightarrow> (Inl e, w2)
                   | Inr _ \<Rightarrow>
                       (let html = text_of r
                        in case ensure_dir (dirname cache_path) of
                             Inl e \<Rightarrow> (Inl e, w2)
                           | Inr _ \<Rightarrow>
                               (Inr html, w2\<lparr>files := (files w2)(cache_path \<mapsto> html)\<rparr>)))))"

text \<open>\<^verbatim>\<open>looks_like_captcha(html)\<close>\<close>

definition looks_like_captcha :: "string \<Rightarrow> bool" where
  "looks_like_captcha html =
     (let h = lower html
      in contains ''recaptcha'' h \<or> contains ''unusual traffic'' h
         \<or> (contains ''sorry'' h \<and> contains ''automated queries'' h))"

section \<open>List-page paginator\<close>

definition BASE :: string where
  "BASE = ''https://scholar.google.com''"

text \<open>
  What BeautifulSoup selects in an author page. A row is a \<^verbatim>\<open>tr.gsc_a_tr\<close>; its
  \<^verbatim>\<open>a.gsc_a_at\<close> element, when there is one, has a stripped text and possibly an
  \<^verbatim>\<open>href\<close>; \<open>year_span\<close> and \<open>cited_anchor\<close> are the stripped texts of
  \<^verbatim>\<open>span.gsc_a_h\<close> and \<^verbatim>\<open>a.gsc_a_ac\<close> when these elements exist. \<open>next_button\<close> is
  \<^verbatim>\<open>button#gsc_bpf_next\<close> with the presence of its \<^verbatim>\<open>disabled\<close> attribute.
\<close>

record anchor =
  a_text :: string
  a_href :: "string option"

record listing_row =
  title_anchor :: "anchor option"
  year_span :: "string option"
  cited_anchor :: "string option"

record button =
  has_disabled :: bool

record listing_page =
  gsc_a_tr :: "listing_row list"
  next_button :: "button option"

text \<open>A publication row as the dictionary built by \<^verbatim>\<open>parse_author_page_for_pubs\<close>.\<close>

record stub =
  s_title :: string
  s_year :: "int option"
  s_cited_by_from_list :: "int option"
  s_view_citation_url :: "string option"

text \<open>
  The body of the loop over the rows, for a row that has its title anchor
  (\<^verbatim>\<open>txt.isdigit()\<close> holds only for digit strings, on which \<^verbatim>\<open>int\<close> cannot fail).
\<close>

definition row_stub :: "listing_row \<Rightarrow> anchor \<Rightarrow> stub" where
  "row_stub tr a =
     (let title = a_text a;
          href = a_href a;
          view_url = (case href of
                        None \<Rightarrow> None
                      | Some h \<Rightarrow> if h \<noteq> [] \<and> startswith h ''/'' then Some (BASE @ h) else Some h);
          year = (case year_span tr of None \<Rightarrow> None | Some y \<Rightarrow> py_int y);
          cited_by = (case cited_anchor tr of
                        None \<Rightarrow> None
                      | Some txt \<Rightarrow> if isdigit txt then py_int txt else None)
      in \<lparr>s_title = title, s_year = year, s_cited_by_from_list = cited_by,
           s_view_citation_url = view_url\<rparr>)"

text \<open>The loop of \<^verbatim>\<open>parse_author_page_for_pubs\<close> over \<^verbatim>\<open>soup.select("tr.gsc_a_tr")\<close>.\<close>

fun rows_pubs :: "listing_row list \<Rightarrow> stub list" where
  "rows_pubs [] = []"
| "rows_pubs (tr # trs) =
     (case title_anchor tr of
        None \<Rightarrow> rows_pubs trs
      | Some a \<Rightarrow> row_stub tr a # rows_pubs trs)"

definition parse_author_page_for_pubs :: "listing_page \<Rightarrow> stub list" where
  "parse_author_page_for_pubs soup = rows_pubs (gsc_a_tr soup)"

text \<open>\<^verbatim>\<open>next_cstart_from_author_page\<close>: \<open>Some 1\<close> is the sentinel "has next".\<close>

definition next_cstart_from_author_page :: "listing_page \<Rightarrow> int option" where
  "next_cstart_from_author_page soup =
     (case next_button soup of
        None \<Rightarrow> None
      | Some btn \<Rightarrow> if has_disabled btn then None else Some 1)"

text \<open>\<^verbatim>\<open>xs[:m]\<close> for an integer \<open>m\<close> that may be negative.\<close>

definition py_take :: "int \<Rightarrow> 'a list \<Rightarrow> 'a list" where
  "py_take m xs = (if 0 \<le> m then take (nat m) xs else take (length xs - nat (- m)) xs)"

text \<open>
  The environment of a run: the network, the HTML parser applied to an author page,
  and (below) what is found in a detail page and in the headless browser.
\<close>

definition captcha_message :: string where
  "captcha_message = ''CAPTCHA / unusual traffic page detected. Increase sleep or try later.''"

definition author_page_url :: "string \<Rightarrow> int \<Rightarrow> int \<Rightarrow> string" where
  "author_page_url user_id cstart pagesize =
     BASE @ ''/citations?hl=en&user='' @ user_id @ ''&cstart='' @ str_int cstart
       @ ''&pagesize='' @ str_int pagesize"

definition author_page_cache_path :: "string \<Rightarrow> string \<Rightarrow> int \<Rightarrow> string" where
  "author_page_cache_path cache_dir user_id cstart =
     os_path_join cache_dir [''author_pages'', user_id, ''cstart_'' @ str_int cstart @ ''.html'']"

text \<open>
  The \<^verbatim>\<open>while True\<close> loop of \<^verbatim>\<open>get_all_author_pubs\<close>, with its variables
  \<open>pubs_all\<close>, \<open>cstart\<close> and \<open>page\<close> as arguments.
\<close>

function author_pubs_loop ::
  "network \<Rightarrow> (string \<Rightarrow> listing_page) \<Rightarrow> string \<Rightarrow> string \<Rightarrow> rat \<Rightarrow> int \<Rightarrow> int option
     \<Rightarrow> stub list \<Rightarrow> int \<Rightarrow> int \<Rightarrow> world \<Rightarrow> (error + stub list) \<times> world" where
  "author_pubs_loop net soup user_id cache_dir sleep_fetch pagesize max_pubs pubs_all cstart page w =
     (let url = author_page_url user_id cstart pagesize;
          cache_path = author_page_cache_path cache_dir user_id cstart
      in case cache_get net (Some url) cache_path sleep_fetch False w of
           (Inl e, w1) \<Rightarrow> (Inl e, w1)
         | (Inr html, w1) \<Rightarrow>
             if looks_like_captcha html then (Inl (RuntimeError captcha_message), w1)
             else
               (let pubs = parse_author_page_for_pubs (soup html)
                in if pubs = [] then (Inr pubs_all, w1)
                   else
                     (let pubs_all1 = pubs_all @ pubs
                      in if (case max_pubs of None \<Rightarrow> False | Some m \<Rightarrow> int (length pubs_all1) \<ge> m)
                         then (Inr (case max_pubs of None \<Rightarrow> pubs_all1 | Some m \<Rightarrow> py_take m pubs_all1), w1)
                         else if next_cstart_from_author_page (soup html) = None then (Inr pubs_all1, w1)
                         else if page + 1 > 500 then (Inr pubs_all1, w1)
                         else author_pubs_loop net soup user_id cache_dir sleep_fetch pagesize max_pubs
                                pubs_all1 (cstart + pagesize) (page + 1) w1)))"
  by pat_completeness auto
termination
  by (relation "measure (\<lambda>(net, soup, user_id, cache_dir, sleep_fetch, pagesize, max_pubs, pubs_all, cstart, page, w). nat (501 - page))") auto

declare author_pubs_loop.simps [simp del]

definition get_all_author_pubs ::
  "network \<Rightarrow> (string \<Rightarrow> listing_page) \<Rightarrow> string \<Rightarrow> string \<Rightarrow> rat \<Rightarrow> int \<Rightarrow> int option
     \<Rightarrow> world \<Rightarrow> (error + stub list) \<times> world" where
  "get_all_author_pubs net soup user_id cache_dir sleep_fetch pagesize max_pubs w =
     author_pubs_loop net soup user_id cache_dir sleep_fetch pagesize max_pubs [] 0 0 w"

section \<open>Detail-page extractor\<close>

text \<open>
  What BeautifulSoup selects in a \<^verbatim>\<open>view_citation\<close> body (the stripped texts of
  \<^verbatim>\<open>#gsc_oci_title\<close>, \<^verbatim>\<open>.gsc_oci_title_link\<close>, \<^verbatim>\<open>.gsc_oci_field\<close> and
  \<^verbatim>\<open>.gsc_oci_value\<close>) and what the two chart patterns find in it: \<open>pattern_a\<close> is
  \<open>None\<close> when the pair-list pattern has no match, otherwise the \<^verbatim>\<open>findall\<close> groups
  \<open>(year, count)\<close> of the matched blob; \<open>pattern_b\<close> likewise holds the \<^verbatim>\<open>findall\<close>
  results on the \<^verbatim>\<open>years=\<close> and \<^verbatim>\<open>cites=\<close> blobs.
\<close>

record detail_page =
  gsc_oci_title :: "string option"
  gsc_oci_title_link :: "string option"
  gsc_oci_field :: "string list"
  gsc_oci_value :: "string list"
  pattern_a :: "(string \<times> string) list option"
  pattern_b :: "(string list \<times> string list) option"

text \<open>\<^verbatim>\<open>re.search(r"(\d{4})", s)\<close>: group 1 of the leftmost match.\<close>

fun search_year :: "string \<Rightarrow> string option" where
  "search_year [] = None"
| "search_year (c # cs) =
     (let t = take 4 (c # cs)
      in if length t = 4 \<and> list_all is_digit t then Some t else search_year cs)"

text \<open>\<^verbatim>\<open>re.search(r"Cited by\s+(\d+)", s)\<close>: group 1 of the leftmost match.\<close>

definition match_cited_by :: "string \<Rightarrow> string option" where
  "match_cited_by s =
     (if startswith s ''Cited by'' then
        (let r = drop 8 s;
             ws = takeWhile is_space r;
             ds = takeWhile is_digit (dropWhile is_space r)
         in if ws \<noteq> [] \<and> ds \<noteq> [] then Some ds else None)
      else None)"

fun search_cited_by :: "string \<Rightarrow> string option" where
  "search_cited_by [] = None"
| "search_cited_by (c # cs) =
     (case match_cited_by (c # cs) of
        Some ds \<Rightarrow> Some ds
      | None \<Rightarrow> search_cited_by cs)"

text \<open>
  A dictionary from year to count is an association list in insertion order;
  \<^verbatim>\<open>d[k] = v\<close> is \<open>AList.update\<close>, \<^verbatim>\<open>d.get(k)\<close> is \<open>map_of\<close>, \<^verbatim>\<open>not d\<close> is \<open>d = []\<close>.
  The loop \<^verbatim>\<open>for y, c in pairs: d[int(y)] = int(c)\<close>:
\<close>

fun assign_all :: "(string \<times> string) list \<Rightarrow> (int \<times> int) list \<Rightarrow> error + (int \<times> int) list" where
  "assign_all [] d = Inr d"
| "assign_all ((y, c) # ps) d =
     (case py_int y of
        None \<Rightarrow> Inl ValueError
      | Some yi \<Rightarrow>
          (case py_int c of
             None \<Rightarrow> Inl ValueError
           | Some ci \<Rightarrow> assign_all ps (AList.update yi ci d)))"

text \<open>\<^verbatim>\<open>[int(x) for x in xs]\<close>\<close>

fun ints :: "string list \<Rightarrow> error + int list" where
  "ints [] = Inr []"
| "ints (x # xs) =
     (case py_int x of
        None \<Rightarrow> Inl ValueError
      | Some i \<Rightarrow> (case ints xs of Inl e \<Rightarrow> Inl e | Inr is \<Rightarrow> Inr (i # is)))"

record parsed =
  p_title :: "string option"
  p_pub_year :: "int option"
  p_cited_by_total :: "int option"
  p_abstract :: "string option"
  p_cites_by_year :: "(int \<times> int) list"
  p_fields :: "(string \<times> string) list"

text \<open>The chart part of \<^verbatim>\<open>parse_view_citation\<close> (patterns A and B).\<close>

definition chart_cites_by_year :: "detail_page \<Rightarrow> error + (int \<times> int) list" where
  "chart_cites_by_year soup =
     (case pattern_a soup of
        Some pairs \<Rightarrow> assign_all pairs []
      | None \<Rightarrow>
          (case pattern_b soup of
             None \<Rightarrow> Inr []
           | Some (years_found, cites_found) \<Rightarrow>
               (case ints years_found of
                  Inl e \<Rightarrow> Inl e
                | Inr years \<Rightarrow>
                    (case ints cites_found of
                       Inl e \<Rightarrow> Inl e
                     | Inr cites \<Rightarrow> Inr (fold (\<lambda>(y, c) d. AList.update y c d) (zip years cites) [])))))"

text \<open>
  \<^verbatim>\<open>parse_view_citation(html)\<close>, given the body and what the parser selects in it.
  The groups handed to \<^verbatim>\<open>int\<close> for the year and the total are digit strings.
\<close>

definition parse_view_citation :: "string \<Rightarrow> detail_page \<Rightarrow> error + parsed" where
  "parse_view_citation html soup =
     (let title = (case gsc_oci_title soup of
                     Some t \<Rightarrow> Some t
                   | None \<Rightarrow> gsc_oci_title_link soup);
          fields = fold (\<lambda>(f, v) d. AList.update f v d) (zip (gsc_oci_field soup) (gsc_oci_value soup)) [];
          abstract = map_of fields ''Description'';
          pub_date = map_of fields ''Publication date'';
          pub_year = (case pub_date of
                        None \<Rightarrow> None
                      | Some d \<Rightarrow>
                          if d = [] then None
                          else (case search_year d of None \<Rightarrow> None | Some g \<Rightarrow> py_int g));
          cited_by_total = (case map_of fields ''Total citations'' of
                              None \<Rightarrow> None
                            | Some v \<Rightarrow> (case search_cited_by v of None \<Rightarrow> None | Some g \<Rightarrow> py_int g));
          cited_by_total = (case cited_by_total of
                              Some n \<Rightarrow> Some n
                            | None \<Rightarrow> (case search_cited_by html of None \<Rightarrow> None | Some g \<Rightarrow> py_int g))
      in case chart_cites_by_year soup of
           Inl e \<Rightarrow> Inl e
         | Inr cites_by_year \<Rightarrow>
             Inr \<lparr>p_title = title, p_pub_year = pub_year, p_cited_by_total = cited_by_total,
                  p_abstract = abstract, p_cites_by_year = cites_by_year, p_fields = fields\<rparr>)"

text \<open>\<^verbatim>\<open>cites_2015_2026\<close>: the columns \<^verbatim>\<open>cites_2015\<close> to \<^verbatim>\<open>cites_2026\<close>, in this order.\<close>

definition cites_2015_2026 :: "(int \<times> int) list \<Rightarrow> (string \<times> int option) list" where
  "cites_2015_2026 cites_by_year =
     map (\<lambda>y. (''cites_'' @ str_int y, map_of cites_by_year y)) [YEAR_MIN..YEAR_MAX]"

section \<open>Citation-series extractor on the rendered page\<close>

text \<open>
  What the headless browser shows for a URL: the page content, for every element whose
  \<^verbatim>\<open>aria-label\<close> mentions "citations" the two groups of the year/count pattern on its
  lower-cased label (\<open>None\<close> when the label does not match), and the groups of all
  matches of the fallback pattern in the lower-cased text of the body.
\<close>

record rendered_page =
  content :: string
  aria_citations :: "(string \<times> string) option list"
  body_citations :: "(string \<times> string) list"

type_synonym browser = "string option \<Rightarrow> nat \<Rightarrow> error + rendered_page"

definition blocked_message :: string where
  "blocked_message = ''Blocked by Google Scholar (CAPTCHA/unusual traffic). Increase sleep or try later.''"

definition extract_cites_by_year_playwright ::
  "browser \<Rightarrow> string option \<Rightarrow> world \<Rightarrow> (error + (int \<times> int) list) \<times> world" where
  "extract_cites_by_year_playwright browser view_citation_url w =
     (let w1 = w\<lparr>renders := renders w + 1\<rparr>
      in case browser view_citation_url (renders w) of
           Inl e \<Rightarrow> (Inl e, w1)
         | Inr page \<Rightarrow>
             (let body = lower (content page)
              in if contains ''unusual traffic'' body \<or> contains ''automated queries'' body
                    \<or> contains ''recaptcha'' body
                 then (Inl (RuntimeError blocked_message), w1)
                 else
                   (case assign_all (List.map_filter id (aria_citations page)) [] of
                      Inl e \<Rightarrow> (Inl e, w1)
                    | Inr cites \<Rightarrow>
                        if cites = [] then (assign_all (body_citations page) [], w1)
                        else (Inr cites, w1))))"

section \<open>Python floats\<close>

text \<open>
  A finite binary64 float is represented by its value, a rational number (the two zeros
  are not distinguished). \<open>round_double\<close> rounds a rational to the nearest float, ties to
  the even significand: the spacing of the floats around \<open>q\<close> is \<open>2 powi p\<close>, where \<open>p\<close> is
  52 below the binary exponent of \<open>q\<close> and at least \<open>- 1074\<close>.
\<close>

definition round_half_even :: "rat \<Rightarrow> int" where
  "round_half_even r =
     (let f = \<lfloor>r\<rfloor>; d = r - of_int f
      in if d < 1 / 2 then f else if 1 / 2 < d then f + 1 else if even f then f else f + 1)"

text \<open>For \<open>q > 0\<close>, the exponent \<open>e\<close> with \<open>2 powi e \<le> q < 2 powi (e + 1)\<close>.\<close>

definition floor_log2 :: "rat \<Rightarrow> int" where
  "floor_log2 q =
     (case quotient_of q of
        (a, b) \<Rightarrow> (let e0 = bitlen a - bitlen b in if 2 powi e0 \<le> q then e0 else e0 - 1))"

definition round_double :: "rat \<Rightarrow> rat" where
  "round_double q =
     (if q = 0 then 0
      else (let p = max (floor_log2 \<bar>q\<bar> - 52) (- 1074)
            in of_int (round_half_even (q / 2 powi p)) * 2 powi p))"

text \<open>
  \<^verbatim>\<open>float(n)\<close> for an integer: the nearest float, or \<^verbatim>\<open>OverflowError\<close> when that is
  beyond the largest float.
\<close>

definition py_float :: "int \<Rightarrow> error + rat" where
  "py_float n =
     (let v = round_double (of_int n)
      in if 2 ^ 1024 \<le> \<bar>v\<bar> then Inl OverflowError else Inr v)"

text \<open>
  \<^verbatim>\<open>a / b\<close> on floats, for a divisor that is 0 or at least 1 in absolute value (the
  quotient is then no larger than \<open>a\<close>, so it is finite).
\<close>

definition float_truediv :: "rat \<Rightarrow> rat \<Rightarrow> error + rat" where
  "float_truediv a b = (if b = 0 then Inl ZeroDivisionError else Inr (round_double (a / b)))"

section \<open>Metric deriver\<close>

text \<open>
  \<^verbatim>\<open>citations_per_year_proxy(total_cites, pub_year, now_year=YEAR_MAX)\<close> of
  scholar_department_extract.py. Python's \<^verbatim>\<open>Optional[int]\<close> is \<open>int option\<close>; the
  result is \<^verbatim>\<open>None\<close>, a float, or an exception of the conversions to float.
\<close>

definition citations_per_year_proxy ::
  "int option \<Rightarrow> int option \<Rightarrow> int \<Rightarrow> error + rat option" where
  "citations_per_year_proxy total_cites pub_year now_year =
     (case total_cites of
        None \<Rightarrow> Inr None
      | Some t \<Rightarrow>
          (case pub_year of
             None \<Rightarrow> Inr None
           | Some y \<Rightarrow>
               (let denom = now_year - y + 1;
                    denom = (if denom \<le> 0 then 1 else denom)
                in case py_float t of
                     Inl e \<Rightarrow> Inl e
                   | Inr ft \<Rightarrow>
                       (case py_float denom of
                          Inl e \<Rightarrow> Inl e
                        | Inr fd \<Rightarrow>
                            (case float_truediv ft fd of
                               Inl e \<Rightarrow> Inl e
                             | Inr v \<Rightarrow> Inr (Some v))))))"

section \<open>Profile aggregator\<close>

text \<open>One row of the data frame built by \<^verbatim>\<open>process_one_professor\<close>.\<close>

record row =
  r_department :: string
  r_faculty_name :: string
  r_title :: "string option"
  r_publication_year :: "int option"
  r_cited_by_total :: "int option"
  r_citations_per_year_proxy :: "rat option"
  r_abstract :: "string option"
  r_scholar_user_id :: string
  r_view_citation_url :: "string option"
  r_cites :: "(string \<times> int option) list"

text \<open>
  Python's \<^verbatim>\<open>a or b\<close> on optional values: \<open>a\<close> when it is truthy (not \<^verbatim>\<open>None\<close>, not
  \<open>0\<close>, not the empty string), otherwise \<open>b\<close>.
\<close>

definition or_int :: "int option \<Rightarrow> int option \<Rightarrow> int option" where
  "or_int a b = (case a of None \<Rightarrow> b | Some n \<Rightarrow> if n = 0 then b else Some n)"

definition or_str :: "string option \<Rightarrow> string option \<Rightarrow> string option" where
  "or_str a b = (case a of None \<Rightarrow> b | Some t \<Rightarrow> if t = [] then b else Some t)"

text \<open>
  The part of the loop body of \<^verbatim>\<open>process_one_professor\<close> that builds the row from the
  stub \<open>p\<close>, the parsed detail page and the series \<open>cites_by_year\<close> read in the browser.
  The proxy is computed before the row is built, and its exception ends the run.
\<close>

definition merge_row ::
  "string \<Rightarrow> string \<Rightarrow> string \<Rightarrow> stub \<Rightarrow> parsed \<Rightarrow> (int \<times> int) list \<Rightarrow> error + row" where
  "merge_row user_id faculty_name department p parsed cites_by_year =
     (let view_url = s_view_citation_url p;
          year_from_list = s_year p;
          cited_from_list = s_cited_by_from_list p;
          pub_year = or_int (p_pub_year parsed) year_from_list;
          cited_total = p_cited_by_total parsed;
          cited_total = (case cited_total of None \<Rightarrow> cited_from_list | Some n \<Rightarrow> Some n)
      in case citations_per_year_proxy cited_total pub_year YEAR_MAX of
           Inl e \<Rightarrow> Inl e
         | Inr cpy_proxy \<Rightarrow>
             (let cites_src = (if cites_by_year \<noteq> [] then cites_by_year else p_cites_by_year parsed)
              in Inr \<lparr>r_department = department,
                      r_faculty_name = faculty_name,
                      r_title = or_str (p_title parsed) (Some (s_title p)),
                      r_publication_year = pub_year,
                      r_cited_by_total = cited_total,
                      r_citations_per_year_proxy = cpy_proxy,
                      r_abstract = p_abstract parsed,
                      r_scholar_user_id = user_id,
                      r_view_citation_url = view_url,
                      r_cites = cites_2015_2026 cites_src\<rparr>))"

definition view_captcha_message :: string where
  "view_captcha_message = ''CAPTCHA / unusual traffic page detected while fetching view_citation pages.''"

definition view_page_cache_path :: "string \<Rightarrow> string \<Rightarrow> nat \<Rightarrow> string" where
  "view_page_cache_path cache_dir user_id i =
     os_path_join cache_dir [''view_pages'', user_id, ''pub_'' @ fmt_05d i @ ''.html'']"

text \<open>The loop \<^verbatim>\<open>for i, p in enumerate(pubs)\<close>, from index \<open>i\<close> on.\<close>

fun professor_rows ::
  "network \<Rightarrow> (string \<Rightarrow> detail_page) \<Rightarrow> browser \<Rightarrow> string \<Rightarrow> string \<Rightarrow> string \<Rightarrow> string \<Rightarrow> rat
     \<Rightarrow> nat \<Rightarrow> stub list \<Rightarrow> world \<Rightarrow> (error + row list) \<times> world" where
  "professor_rows net soup browser user_id faculty_name department cache_dir sleep_fetch i [] w =
     (Inr [], w)"
| "professor_rows net soup browser user_id faculty_name department cache_dir sleep_fetch i (p # ps) w =
     (let view_url = s_view_citation_url p;
          cache_path = view_page_cache_path cache_dir user_id i
      in case cache_get net view_url cache_path sleep_fetch False w of
           (Inl e, w1) \<Rightarrow> (Inl e, w1)
         | (Inr html, w1) \<Rightarrow>
             (case extract_cites_by_year_playwright browser view_url w1 of
                (Inl e, w2) \<Rightarrow> (Inl e, w2)
              | (Inr cites_by_year, w2) \<Rightarrow>
                  if looks_like_captcha html then (Inl (RuntimeError view_captcha_message), w2)
                  else
                    (case parse_view_citation html (soup html) of
                       Inl e \<Rightarrow> (Inl e, w2)
                     | Inr parsed \<Rightarrow>
                         (case merge_row user_id faculty_name department p parsed cites_by_year of
                            Inl e \<Rightarrow> (Inl e, w2)
                          | Inr row \<Rightarrow>
                              (case professor_rows net soup browser user_id faculty_name department
                                      cache_dir sleep_fetch (i + 1) ps w2 of
                                 (Inl e, w3) \<Rightarrow> (Inl e, w3)
                               | (Inr rows, w3) \<Rightarrow> (Inr (row # rows), w3))))))"

text \<open>The final filter on \<^verbatim>\<open>publication_year\<close>.\<close>

definition in_horizon :: "row \<Rightarrow> bool" where
  "in_horizon r =
     (case r_publication_year r of
        None \<Rightarrow> True
      | Some y \<Rightarrow> YEAR_MIN \<le> y \<and> y \<le> YEAR_MAX)"

text \<open>
  \<^verbatim>\<open>process_one_professor\<close>. A data frame built from no rows has no column
  \<^verbatim>\<open>publication_year\<close>, so the filter raises \<^verbatim>\<open>KeyError\<close>.
\<close>

definition process_one_professor ::
  "network \<Rightarrow> (string \<Rightarrow> listing_page) \<Rightarrow> (string \<Rightarrow> detail_page) \<Rightarrow> browser
     \<Rightarrow> string \<Rightarrow> string \<Rightarrow> string \<Rightarrow> string \<Rightarrow> rat \<Rightarrow> int option
     \<Rightarrow> world \<Rightarrow> (error + row list) \<times> world" where
  "process_one_professor net soup_author soup_view browser user_id faculty_name department
     cache_dir sleep_fetch max_pubs w =
     (case get_all_author_pubs net soup_author user_id cache_dir sleep_fetch 100 max_pubs w of
        (Inl e, w1) \<Rightarrow> (Inl e, w1)
      | (Inr pubs, w1) \<Rightarrow>
          (case professor_rows net soup_view browser user_id faculty_name department cache_dir
                  sleep_fetch 0 pubs w1 of
             (Inl e, w2) \<Rightarrow> (Inl e, w2)
           | (Inr rows, w2) \<Rightarrow>
               if rows = [] then (Inl (KeyError ''publication_year''), w2)
               else (Inr (filter in_horizon rows), w2)))"

section \<open>Yearly export\<close>

text \<open>
  A cell of the department data frame as \<^verbatim>\<open>row.get\<close> returns it: \<^verbatim>\<open>None\<close> (also for
  a missing column), the float NaN of an empty CSV cell, or any other value \<open>x\<close>,
  represented by \<^verbatim>\<open>str(x)\<close>.
\<close>

datatype cell = PyNone | NaN | Val string

text \<open>\<^verbatim>\<open>clean_text(x)\<close> of make_yearly_notebooklm_docs.py\<close>

definition clean_text :: "cell \<Rightarrow> string" where
  "clean_text x = (case x of PyNone \<Rightarrow> [] | NaN \<Rightarrow> [] | Val s \<Rightarrow> strip s)"

record csv_row =
  c_title :: cell
  c_abstract :: cell
  c_cited_by_total :: cell
  c_citations_per_year_proxy :: cell

definition newline :: string where
  "newline = [CHR 0x0A]"

text \<open>
  The strings written for one row by the loop of \<^verbatim>\<open>write_year_file\<close>, one per
  \<^verbatim>\<open>f.write\<close> call.
\<close>

definition entry_writes :: "csv_row \<Rightarrow> string list" where
  "entry_writes r =
     (let title = clean_text (c_title r);
          abstract = clean_text (c_abstract r);
          cited_by_total = clean_text (c_cited_by_total r);
          proxy = clean_text (c_citations_per_year_proxy r)
      in [''TITLE: '' @ title @ newline,
          ''CITED_BY_TOTAL: '' @ (if cited_by_total \<noteq> [] then cited_by_total else ''N/A'') @ newline,
          ''CITATIONS_PER_YEAR_PROXY: '' @ (if proxy \<noteq> [] then proxy else ''N/A'') @ newline,
          ''ABSTRACT_OR_DESCRIPTION:'' @ newline,
          (if abstract \<noteq> [] then abstract else ''N/A'') @ newline,
          newline @ replicate 60 (CHR ''-'') @ newline @ newline])"

text \<open>
  The content of the file written by \<^verbatim>\<open>write_year_file\<close>: \<open>header\<close> is the formatted
  disclaimer and \<open>sort_values\<close> the ordering that pandas gives the rows.
\<close>

definition write_year_file :: "string \<Rightarrow> (csv_row list \<Rightarrow> csv_row list) \<Rightarrow> csv_row list \<Rightarrow> string" where
  "write_year_file header sort_values df_year =
     header @ concat (concat (map entry_writes (sort_values df_year)))"

section \<open>Predicates used in the statements\<close>

text \<open>
  The groups captured by \<^verbatim>\<open>\d{4}\<close> and \<^verbatim>\<open>\d+\<close> are non-empty digit strings. These
  predicates say so for the groups recorded in a detail page and in a rendered page.
\<close>

definition digit_groups :: "(string \<times> string) list \<Rightarrow> bool" where
  "digit_groups ps = list_all (\<lambda>(y, c). isdigit y \<and> isdigit c) ps"

definition detail_groups_ok :: "detail_page \<Rightarrow> bool" where
  "detail_groups_ok soup =
     ((case pattern_a soup of None \<Rightarrow> True | Some ps \<Rightarrow> digit_groups ps)
      \<and> (case pattern_b soup of
            None \<Rightarrow> True
          | Some (ys, cs) \<Rightarrow> list_all isdigit ys \<and> list_all isdigit cs))"

definition rendered_groups_ok :: "rendered_page \<Rightarrow> bool" where
  "rendered_groups_ok page =
     (digit_groups (List.map_filter id (aria_citations page)) \<and> digit_groups (body_citations page))"

text \<open>Every count stored in a year-to-count dictionary is non-negative.\<close>

definition nonneg_counts :: "(int \<times> int) list \<Rightarrow> bool" where
  "nonneg_counts d = (\<forall>k v. map_of d k = Some v \<longrightarrow> 0 \<le> v)"

text \<open>The per-year columns of a record: one per year of the horizon, in order.\<close>

definition horizon_columns :: "string list" where
  "horizon_columns =
     [''cites_2015'', ''cites_2016'', ''cites_2017'', ''cites_2018'', ''cites_2019'', ''cites_2020'',
      ''cites_2021'', ''cites_2022'', ''cites_2023'', ''cites_2024'', ''cites_2025'', ''cites_2026'']"

definition series_ok :: "(string \<times> int option) list \<Rightarrow> bool" where
  "series_ok cs =
     (map fst cs = horizon_columns
      \<and> list_all (\<lambda>(k, v). case v of None \<Rightarrow> True | Some n \<Rightarrow> 0 \<le> n) cs)"

text \<open>
  A listing body on which the paginator goes on: not classified as blocked, at least
  one stub row, and an enabled next-page button.
\<close>

definition listing_continues :: "(string \<Rightarrow> listing_page) \<Rightarrow> string \<Rightarrow> bool" where
  "listing_continues soup html =
     (\<not> looks_like_captcha html \<and> parse_author_page_for_pubs (soup html) \<noteq> []
      \<and> next_cstart_from_author_page (soup html) \<noteq> None)"

text \<open>
  An adversarial listing: every request succeeds with such a body, which is still such
  a body when it is read back from the cache, and so is every body already in the cache.
\<close>

definition adversarial :: "network \<Rightarrow> (string \<Rightarrow> listing_page) \<Rightarrow> world \<Rightarrow> bool" where
  "adversarial net soup w =
     ((\<forall>u n. \<exists>resp. net u n = Inr resp \<and> \<not> (400 \<le> status_code resp \<and> status_code resp < 600)
                \<and> listing_continues soup (text_of resp)
                \<and> listing_continues soup (universal_newlines (text_of resp)))
      \<and> (\<forall>p h. files w p = Some h \<longrightarrow> listing_continues soup (universal_newlines h)))"

text \<open>
  The per-year columns of row \<open>r\<close> come from publication \<open>p\<close> processed in world \<open>w\<close>:
  \<open>html\<close> is the body that \<^verbatim>\<open>cache_get\<close> returns for the detail URL of \<open>p\<close> and the cache
  path \<open>cache_path\<close> in \<open>w\<close>, \<open>rendered\<close> is the series that the browser then reads for
  the same URL, which is page load number \<open>n\<close>, and \<open>parsed\<close> is the static parse of
  \<open>html\<close>. The row holds the rendered series when it is non-empty, and the series of
  the static parse otherwise.
\<close>

definition series_choice ::
  "network \<Rightarrow> (string \<Rightarrow> detail_page) \<Rightarrow> browser \<Rightarrow> rat \<Rightarrow> stub \<Rightarrow> string \<Rightarrow> world \<Rightarrow> nat \<Rightarrow> row \<Rightarrow> bool" where
  "series_choice net soup browser sleep_fetch p cache_path w n r =
     (\<exists>html w1 rendered w2 parsed.
        cache_get net (s_view_citation_url p) cache_path sleep_fetch False w = (Inr html, w1)
        \<and> extract_cites_by_year_playwright browser (s_view_citation_url p) w1 = (Inr rendered, w2)
        \<and> renders w2 = n
        \<and> parse_view_citation html (soup html) = Inr parsed
        \<and> r_cites r = cites_2015_2026 (if rendered \<noteq> [] then rendered else p_cites_by_year parsed))"

section \<open>Concrete inputs\<close>

definition world0 :: world where
  "world0 = \<lparr>files = Map.empty, requests = 0, reads = 0, slept = 0, renders = 0\<rparr>"

definition net_ok :: network where
  "net_ok = (\<lambda>u n. Inr (Response 200 ''<html>ok</html>''))"



definition blocked_body :: string where
  "blocked_body = ''<html>Our systems have detected unusual traffic</html>''"

definition net_blocked :: network where
  "net_blocked = (\<lambda>u n. Inr (Response 200 blocked_body))"

definition row_with_href :: listing_row where
  "row_with_href =
     \<lparr>title_anchor = Some \<lparr>a_text = ''A paper'', a_href = Some ''/citations?view_op=view_citation&x=1''\<rparr>,
      year_span = Some ''2019'', cited_anchor = Some ''12''\<rparr>"

definition row_without_href :: listing_row where
  "row_without_href =
     \<lparr>title_anchor = Some \<lparr>a_text = ''A paper'', a_href = None\<rparr>,
      year_span = Some ''2019'', cited_anchor = Some ''12''\<rparr>"

definition stub_without_url :: stub where
  "stub_without_url =
     \<lparr>s_title = ''A paper'', s_year = Some 2019, s_cited_by_from_list = Some 12,
      s_view_citation_url = None\<rparr>"

definition stub_2019 :: stub where
  "stub_2019 =
     \<lparr>s_title = ''A paper'', s_year = Some 2019, s_cited_by_from_list = Some 12,
      s_view_citation_url = Some ''https://scholar.google.com/citations?view_op=view_citation&x=1''\<rparr>"

text \<open>A listing page with one row and no next button, and one whose next button is enabled.\<close>

definition soup_last_page :: "string \<Rightarrow> listing_page" where
  "soup_last_page = (\<lambda>html. \<lparr>gsc_a_tr = [row_with_href], next_button = None\<rparr>)"

definition soup_next_page :: "string \<Rightarrow> listing_page" where
  "soup_next_page = (\<lambda>html. \<lparr>gsc_a_tr = [row_with_href], next_button = Some \<lparr>has_disabled = False\<rparr>\<rparr>)"

text \<open>A detail page with a chart in the page source (pattern A), and its rendering with one bar.\<close>

definition detail_with_chart :: detail_page where
  "detail_with_chart =
     \<lparr>gsc_oci_title = Some ''A paper in detail'', gsc_oci_title_link = None,
      gsc_oci_field = [''Publication date'', ''Total citations''],
      gsc_oci_value = [''2020/3/1'', ''Cited by 40''],
      pattern_a = Some [(''2020'', ''5''), (''2021'', ''6'')], pattern_b = None\<rparr>"

text \<open>What the static parse finds in that detail page, and the row built for it.\<close>

definition parsed_with_chart :: parsed where
  "parsed_with_chart =
     \<lparr>p_title = Some ''A paper in detail'', p_pub_year = Some 2020, p_cited_by_total = Some 40,
      p_abstract = None, p_cites_by_year = [(2020, 5), (2021, 6)],
      p_fields = [(''Publication date'', ''2020/3/1''), (''Total citations'', ''Cited by 40'')]\<rparr>"

definition row_with_bar :: row where
  "row_with_bar =
     \<lparr>r_department = ''CS'', r_faculty_name = ''F'', r_title = Some ''A paper in detail'',
      r_publication_year = Some 2020, r_cited_by_total = Some 40,
      r_citations_per_year_proxy = Some (round_double (40 / 7)), r_abstract = None,
      r_scholar_user_id = ''u'',
      r_view_citation_url = Some ''https://scholar.google.com/citations?view_op=view_citation&x=1'',
      r_cites = cites_2015_2026 [(2020, 7)]\<rparr>"

definition rendered_with_bar :: rendered_page where
  "rendered_with_bar =
     \<lparr>content = ''<html>chart</html>'', aria_citations = [Some (''2020'', ''7'')], body_citations = []\<rparr>"

definition browser_with_bar :: browser where
  "browser_with_bar = (\<lambda>u n. Inr rendered_with_bar)"

text \<open>A detail page whose publication date reads \<^verbatim>\<open>0000\<close>.\<close>

definition detail_year_zero :: detail_page where
  "detail_year_zero =
     \<lparr>gsc_oci_title = Some ''A paper in detail'', gsc_oci_title_link = None,
      gsc_oci_field = [''Publication date''], gsc_oci_value = [''0000''],
      pattern_a = None, pattern_b = None\<rparr>"

text \<open>A row of the department data set in which every cell is empty.\<close>

definition row_without_title :: csv_row where
  "row_without_title =
     \<lparr>c_title = NaN, c_abstract = NaN, c_cited_by_total = NaN, c_citations_per_year_proxy = NaN\<rparr>"

section \<open>Properties of the float model\<close>

lemma round_half_even_of_int [simp]: "round_half_even (of_int k) = k"
  by (simp add: round_half_even_def)

lemma floor_log2_of_int_le:
  assumes "0 < n" "n < 2 ^ 53"
  shows "floor_log2 (of_int n) \<le> 52"
proof -
  have "bitlen n \<le> 53" using assms by (simp add: bitlen_le_iff_power)
  moreover have "bitlen 1 = 1" by (simp add: bitlen_alt_def)
  ultimately show ?thesis
    by (auto simp: floor_log2_def Let_def)
qed

lemma round_double_of_int:
  assumes "\<bar>n\<bar> < 2 ^ 53"
  shows "round_double (of_int n) = of_int n"
proof (cases "n = 0")
  case True
  then show ?thesis by (simp add: round_double_def)
next
  case False
  define p where "p = max (floor_log2 \<bar>of_int n\<bar> - 52) (- 1074)"
  have "floor_log2 \<bar>of_int n\<bar> \<le> 52"
    using floor_log2_of_int_le [of "\<bar>n\<bar>"] assms False by (simp flip: of_int_abs)
  then have p: "p \<le> 0" by (simp add: p_def)
  define k where "k = nat (- p)"
  have pow: "(2::rat) powi p = inverse (2 ^ k)"
    using p by (simp add: power_int_def k_def power_one_over inverse_eq_divide)
  have "of_int n / (2::rat) powi p = of_int (n * 2 ^ k)"
    by (simp add: pow divide_inverse)
  then have "round_half_even (of_int n / 2 powi p) = n * 2 ^ k"
    by (simp only: round_half_even_of_int)
  then have "round_double (of_int n) = of_int (n * 2 ^ k) * inverse (2 ^ k)"
    using False by (simp add: round_double_def p_def [symmetric] Let_def pow)
  then show ?thesis by simp
qed

lemma py_float_exact:
  assumes "\<bar>n\<bar> < 2 ^ 53"
  shows "py_float n = Inr (of_int n)"
proof -
  have "\<bar>of_int n :: rat\<bar> < 2 ^ 53"
    using assms by (metis of_int_abs of_int_less_numeral_power_cancel_iff)
  also have "(2::rat) ^ 53 \<le> 2 ^ 1024" by (rule power_increasing) simp_all
  finally show ?thesis
    by (simp add: py_float_def round_double_of_int [OF assms])
qed


lemma floor_log2_of_int:
  assumes "0 < n"
  shows "floor_log2 (of_int n) = bitlen n - 1"
proof -
  have one: "bitlen 1 = 1" by (simp add: bitlen_alt_def)
  have ge: "1 \<le> bitlen n" using assms bitlen_eq_zero_iff [of n] bitlen_nonneg [of n] by linarith
  have "(2::int) ^ nat (bitlen n - 1) \<le> n" using bitlen_bounds [OF assms] by simp
  then have "(of_int ((2::int) ^ nat (bitlen n - 1)) :: rat) \<le> of_int n"
    by (simp only: of_int_le_iff)
  then have "(2::rat) powi (bitlen n - 1) \<le> of_int n"
    using ge by (simp add: power_int_def)
  then show ?thesis
    by (simp add: floor_log2_def one Let_def)
qed

lemma round_half_even_ge:
  assumes "of_int k \<le> r"
  shows "k \<le> round_half_even r"
proof -
  have "k \<le> \<lfloor>r\<rfloor>" using assms by (simp add: le_floor_iff)
  moreover have "\<lfloor>r\<rfloor> \<le> round_half_even r" by (simp add: round_half_even_def Let_def)
  ultimately show ?thesis by simp
qed

lemma round_double_of_int_ge:
  assumes pos: "0 < n"
  shows "2 powi (bitlen n - 1) \<le> round_double (of_int n)"
proof -
  define e where "e = bitlen n - 1"
  have e: "0 \<le> e" using pos bitlen_eq_zero_iff [of n] bitlen_nonneg [of n] by (simp add: e_def)
  have fl: "floor_log2 (of_int n) = e"
    using floor_log2_of_int [OF pos] by (simp add: e_def)
  define p where "p = e - 52"
  have p: "max (floor_log2 (of_int n) - 52) (- 1074) = p"
    using e by (simp add: fl p_def)
  have pe: "(2::rat) powi e = 2 ^ 52 * 2 powi p"
    by (simp add: p_def power_int_diff)
  have low: "(2::rat) powi e \<le> of_int n"
  proof -
    have "(2::int) ^ nat e \<le> n" using bitlen_bounds [OF pos] by (simp add: e_def)
    then have "(of_int ((2::int) ^ nat e) :: rat) \<le> of_int n" by (simp only: of_int_le_iff)
    then show ?thesis using e by (simp add: power_int_def)
  qed
  have ppos: "0 < (2::rat) powi p" by (simp add: power_int_def)
  have "(2::rat) ^ 52 \<le> of_int n / 2 powi p"
    using low ppos by (simp add: pe pos_le_divide_eq)
  then have "of_int ((2::int) ^ 52) \<le> of_int n / (2::rat) powi p" by simp
  then have "(2::int) ^ 52 \<le> round_half_even (of_int n / 2 powi p)"
    by (rule round_half_even_ge)
  then have "(of_int ((2::int) ^ 52) :: rat) \<le> of_int (round_half_even (of_int n / 2 powi p))"
    by (simp only: of_int_le_iff)
  then have "(2::rat) ^ 52 \<le> of_int (round_half_even (of_int n / 2 powi p))"
    by simp
  then have "(2::rat) ^ 52 * 2 powi p \<le> of_int (round_half_even (of_int n / 2 powi p)) * 2 powi p"
    using ppos by (intro mult_right_mono) simp_all
  then have "(2::rat) powi e \<le> of_int (round_half_even (of_int n / 2 powi p)) * 2 powi p"
    by (simp only: pe)
  then show ?thesis
    using pos by (simp add: round_double_def p Let_def e_def [symmetric])
qed

lemma round_double_of_int_ge_1:
  assumes "1 \<le> n"
  shows "1 \<le> round_double (of_int n)"
proof -
  have pos: "0 < n" using assms by simp
  have "0 \<le> bitlen n - 1"
    using pos bitlen_eq_zero_iff [of n] bitlen_nonneg [of n] by simp
  then have "(1::rat) \<le> 2 powi (bitlen n - 1)" by (simp add: power_int_def)
  from this round_double_of_int_ge [OF pos] show ?thesis by (rule order_trans)
qed

lemma py_float_ge_1: "1 \<le> n \<Longrightarrow> py_float n = Inr fd \<Longrightarrow> 1 \<le> fd"
  using round_double_of_int_ge_1 [of n] by (auto simp: py_float_def Let_def split: if_splits)

lemma proxy_denominator: "(if d \<le> 0 then 1 else d) = max d (1::int)"
  by (simp add: max_def)

lemma py_float_overflow:
  assumes "2 ^ 1024 \<le> n"
  shows "py_float n = Inl OverflowError"
proof -
  have pos: "0 < n" using assms by (smt (verit) zero_less_power)
  have "1025 \<le> bitlen n" using assms by (simp add: bitlen_ge_iff_power)
  then have e: "1024 \<le> bitlen n - 1" by simp
  then have "(2::rat) powi 1024 \<le> 2 powi (bitlen n - 1)"
    by (intro power_int_increasing) simp_all
  then have "(2::rat) ^ 1024 \<le> round_double (of_int n)"
    using round_double_of_int_ge [OF pos] by simp
  then show ?thesis by (simp add: py_float_def Let_def)
qed

lemma float_nearest_100_7: "round_double (100 / 7) = 8042142191733029 / 562949953421312"
  by code_simp

section \<open>Properties of the metric deriver\<close>

lemma proxy_absent_iff:
  "(citations_per_year_proxy total_cites pub_year now_year = Inr None)
     = (total_cites = None \<or> pub_year = None)"
  by (auto simp: citations_per_year_proxy_def float_truediv_def Let_def
           split: option.splits sum.splits if_splits)

lemma proxy_general:
  "citations_per_year_proxy (Some t) (Some y) now_year
     = (case py_float t of
          Inl e \<Rightarrow> Inl e
        | Inr ft \<Rightarrow>
            (case py_float (max (now_year - y + 1) 1) of
               Inl e \<Rightarrow> Inl e
             | Inr fd \<Rightarrow> Inr (Some (round_double (ft / fd)))))"
proof -
  have "fd \<noteq> 0" if "py_float (max (now_year - y + 1) 1) = Inr fd" for fd
    using py_float_ge_1 [OF _ that] by auto
  then show ?thesis
    unfolding citations_per_year_proxy_def option.case Let_def proxy_denominator
    by (auto simp: float_truediv_def split: sum.splits)
qed

lemma proxy_small:
  assumes "\<bar>t\<bar> < 2 ^ 53" "max (now_year - y + 1) 1 < 2 ^ 53"
  shows "citations_per_year_proxy (Some t) (Some y) now_year
           = Inr (Some (round_double (of_int t / of_int (max (now_year - y + 1) 1))))"
proof -
  have "\<bar>max (now_year - y + 1) 1\<bar> < 2 ^ 53" using assms(2) by simp
  then show ?thesis
    using assms(1) by (simp add: proxy_general py_float_exact)
qed

lemma py_float_zero: "py_float 0 = Inr 0"
  by (simp add: py_float_def round_double_def)

text \<open>
  C6 as stated fails: it gives the value \<open>total / 7\<close> for every total published in 2020,
  but for the total \<open>2 ^ 1024\<close>, which a detail page can state, the conversion to float
  raises \<^verbatim>\<open>OverflowError\<close>.
\<close>

theorem proxy_overflow_counterexample:
  "citations_per_year_proxy (Some (2 ^ 1024)) (Some 2020) 2026 = Inl OverflowError"
  by (simp add: citations_per_year_proxy_def py_float_overflow)

text \<open>
  C6 (amended): the proxy is absent if and only if the total or the year is absent.
  Otherwise it is \<^verbatim>\<open>float(total) / float(denom)\<close> with
  \<open>denom = max (horizon_end - year + 1) 1\<close>, where a conversion to float that overflows
  raises \<^verbatim>\<open>OverflowError\<close>, and the divisor is never zero; when the total and the
  denominator are below \<open>2 ^ 53\<close> in absolute value, it is the float nearest to
  \<open>total / denom\<close>. In particular proxy(100, 2020, 2026) is the float nearest to 100/7,
  proxy(None, 2020, _) is absent and proxy(10, 2027, 2026) = 10.
\<close>

theorem proxy_absent_iff_and_value:
  "(citations_per_year_proxy total_cites pub_year horizon_end = Inr None)
     = (total_cites = None \<or> pub_year = None)
   \<and> citations_per_year_proxy (Some t) (Some y) horizon_end
       = (case py_float t of
            Inl e \<Rightarrow> Inl e
          | Inr ft \<Rightarrow>
              (case py_float (max (horizon_end - y + 1) 1) of
                 Inl e \<Rightarrow> Inl e
               | Inr fd \<Rightarrow> Inr (Some (round_double (ft / fd)))))
   \<and> (\<bar>t\<bar> < 2 ^ 53 \<and> max (horizon_end - y + 1) 1 < 2 ^ 53 \<longrightarrow>
        citations_per_year_proxy (Some t) (Some y) horizon_end
          = Inr (Some (round_double (of_int t / of_int (max (horizon_end - y + 1) 1)))))
   \<and> citations_per_year_proxy (Some 100) (Some 2020) 2026
       = Inr (Some (8042142191733029 / 562949953421312))
   \<and> round_double (100 / 7) = 8042142191733029 / 562949953421312
   \<and> citations_per_year_proxy None (Some 2020) horizon_end = Inr None
   \<and> citations_per_year_proxy (Some 10) (Some 2027) 2026 = Inr (Some 10)"
proof -
  have e100: "citations_per_year_proxy (Some 100) (Some 2020) 2026
       = Inr (Some (8042142191733029 / 562949953421312))"
    using proxy_small [of 100 2026 2020] by (simp add: float_nearest_100_7)
  have e10: "citations_per_year_proxy (Some 10) (Some 2027) 2026 = Inr (Some 10)"
    using proxy_small [of 10 2026 2027] round_double_of_int [of 10] by simp
  have none: "citations_per_year_proxy None (Some 2020) horizon_end = Inr None"
    by (simp add: citations_per_year_proxy_def)
  show ?thesis
    using proxy_absent_iff [of total_cites pub_year horizon_end] proxy_general [of t y horizon_end]
      proxy_small [of t horizon_end y] e100 e10 none float_nearest_100_7
    by blast
qed

theorem proxy_absent_iff_and_value_witness:
  "citations_per_year_proxy (Some 12) (Some 2024) 2026 = Inr (Some 4)"
proof -
  have "\<bar>12 :: int\<bar> < 2 ^ 53 \<and> max (2026 - 2024 + 1) (1 :: int) < 2 ^ 53" by simp
  then have "citations_per_year_proxy (Some 12) (Some 2024) 2026
               = Inr (Some (round_double (of_int 12 / of_int (max (2026 - 2024 + 1) 1))))"
    using proxy_absent_iff_and_value [where t = 12 and y = 2024 and horizon_end = 2026] by blast
  then show ?thesis using round_double_of_int [of 4] by simp
qed

text \<open>
  C10 as stated fails: for the present year \<open>- (2 ^ 1024)\<close>, which a listing row can
  state, a total of 0 does not give 0.0: the conversion of the denominator to float
  raises \<^verbatim>\<open>OverflowError\<close>.
\<close>

theorem proxy_zero_total_counterexample:
  "citations_per_year_proxy (Some 0) (Some (- (2 ^ 1024))) 2026 = Inl OverflowError"
proof -
  have "py_float (2026 + 2 ^ 1024 + 1) = Inl OverflowError"
    by (rule py_float_overflow) simp
  then show ?thesis
    by (simp add: citations_per_year_proxy_def Let_def py_float_zero)
qed

text \<open>
  C10 (amended): the result is absent exactly when an input is absent, never because the
  citation count is zero. For every present publication year whose denominator
  \<open>max (now_year - year + 1) 1\<close> converts to a float (as every denominator below
  \<open>2 ^ 53\<close> does), a total of 0 gives the defined value 0.0; otherwise the conversion
  raises \<^verbatim>\<open>OverflowError\<close>.
\<close>

theorem proxy_zero_total_is_zero:
  "(citations_per_year_proxy total_cites pub_year now_year = Inr None)
     = (total_cites = None \<or> pub_year = None)
   \<and> citations_per_year_proxy (Some 0) (Some y) now_year
       = (case py_float (max (now_year - y + 1) 1) of
            Inl e \<Rightarrow> Inl e
          | Inr fd \<Rightarrow> Inr (Some 0))
   \<and> (max (now_year - y + 1) 1 < 2 ^ 53 \<longrightarrow>
        citations_per_year_proxy (Some 0) (Some y) now_year = Inr (Some 0))"
proof -
  have general: "citations_per_year_proxy (Some 0) (Some y) now_year
       = (case py_float (max (now_year - y + 1) 1) of
            Inl e \<Rightarrow> Inl e
          | Inr fd \<Rightarrow> Inr (Some 0))"
    by (simp add: proxy_general py_float_zero round_double_def split: sum.splits)
  have "citations_per_year_proxy (Some 0) (Some y) now_year = Inr (Some 0)"
    if "max (now_year - y + 1) 1 < 2 ^ 53"
    using proxy_small [of 0 now_year y] that by (simp add: round_double_def)
  with proxy_absent_iff [of total_cites pub_year now_year] general show ?thesis by blast
qed

theorem proxy_zero_total_is_zero_witness:
  "citations_per_year_proxy (Some 0) (Some 2020) 2026 = Inr (Some 0)"
proof -
  have "max (2026 - 2020 + 1) (1 :: int) < 2 ^ 53" by simp
  then show ?thesis
    using proxy_zero_total_is_zero [where now_year = 2026 and y = 2020] by blast
qed

section \<open>Cache store\<close>

lemma cache_get_renders:
  "cache_get net url key s force w = (r, w') \<Longrightarrow> renders w' = renders w"
  unfolding cache_get_def requests_get_def Let_def
  by (auto split: option.splits sum.splits prod.splits if_splits)

lemma cache_get_counts:
  "cache_get net (Some u) key s force w = (r, w') \<Longrightarrow>
   requests w' + reads w' = requests w + reads w + 1"
  unfolding cache_get_def requests_get_def Let_def
  by (auto split: option.splits sum.splits prod.splits if_splits)

lemma dirname_nonempty:
  assumes "CHR ''/'' \<in> set p"
  shows "dirname p \<noteq> []"
proof -
  define head where "head = rev (dropWhile (\<lambda>c. c \<noteq> CHR ''/'') (rev p))"
  have "\<not> (\<forall>c \<in> set (rev p). c \<noteq> CHR ''/'')" using assms by simp
  then have head: "head \<noteq> []" by (simp add: head_def dropWhile_eq_Nil_conv)
  show ?thesis
  proof (cases "list_all (\<lambda>c. c = CHR ''/'') head")
    case True
    with head show ?thesis by (simp add: dirname_def head_def [symmetric] Let_def)
  next
    case False
    then have "rev (dropWhile (\<lambda>c. c = CHR ''/'') (rev head)) \<noteq> []"
      by (simp add: dropWhile_eq_Nil_conv list_all_iff)
    with head False show ?thesis by (simp add: dirname_def head_def [symmetric] Let_def)
  qed
qed





section \<open>Block classifier and the cache\<close>

lemma captcha_blocked_body: "looks_like_captcha blocked_body"
  by code_simp

lemma not_captcha_ok_body: "\<not> looks_like_captcha ''<html>ok</html>''"
  by code_simp

lemma universal_newlines_blocked_body: "universal_newlines blocked_body = blocked_body"
  by (simp add: blocked_body_def)

lemma universal_newlines_ok_body: "universal_newlines ''<html>ok</html>'' = ''<html>ok</html>''"
  by simp

lemma first_author_page_path:
  "author_page_cache_path ''cache'' ''u'' 0 = ''cache/author_pages/u/cstart_0.html''"
  by code_simp

lemma first_author_page_dir: "dirname ''cache/author_pages/u/cstart_0.html'' \<noteq> []"
  by (rule dirname_nonempty) simp

text \<open>
  C1: a listing body with an anti-automation marker aborts the run with the blocked
  error, but \<^verbatim>\<open>cache_get\<close> has written the body to the cache before the classifier runs.
  A later run, on a network that answers normally, reads the poisoned body back from the
  cache and aborts again without making a request.
\<close>

theorem blocked_listing_body_is_cached:
  "get_all_author_pubs net_blocked soup ''u'' ''cache'' 2 100 None world0
     = (Inl (RuntimeError captcha_message),
        world0\<lparr>files := [''cache/author_pages/u/cstart_0.html'' \<mapsto> blocked_body],
               requests := 1, slept := 2\<rparr>)
   \<and> get_all_author_pubs net_ok soup ''u'' ''cache'' 2 100 None
        (world0\<lparr>files := [''cache/author_pages/u/cstart_0.html'' \<mapsto> blocked_body],
               requests := 1, slept := 2\<rparr>)
     = (Inl (RuntimeError captcha_message),
        world0\<lparr>files := [''cache/author_pages/u/cstart_0.html'' \<mapsto> blocked_body],
               requests := 1, reads := 1, slept := 2\<rparr>)"
  unfolding get_all_author_pubs_def
  by (subst author_pubs_loop.simps, subst (2) author_pubs_loop.simps)
     (simp add: first_author_page_path first_author_page_dir captcha_blocked_body
        universal_newlines_blocked_body cache_get_def requests_get_def
        raise_for_status_def ensure_dir_def Let_def net_blocked_def world0_def)

section \<open>Rows of a listing page\<close>

text \<open>
  C4: a row whose title anchor has no \<^verbatim>\<open>href\<close> is not skipped: the paginator emits a
  stub for it, without a detail URL. Fetching the detail page of that stub then fails
  in \<^verbatim>\<open>requests.get\<close>.
\<close>

theorem row_without_href_is_emitted:
  "parse_author_page_for_pubs \<lparr>gsc_a_tr = [row_without_href], next_button = None\<rparr>
     = [stub_without_url]
   \<and> fst (professor_rows net_ok soup browser ''u'' ''F'' ''CS'' ''cache'' 2 0 [stub_without_url] world0)
     = Inl RequestException"
  by (simp add: parse_author_page_for_pubs_def row_without_href_def stub_without_url_def
        row_stub_def py_int_def strip_def is_space_def int_unsigned_def is_digit_def digit_val_def
        isdigit_def cache_get_def requests_get_def world0_def Let_def)

section \<open>Entries of the yearly export\<close>

text \<open>
  C3: for a row in which the title is absent the export writes \<^verbatim>\<open>TITLE: \<close> followed by
  nothing, not the placeholder; the total, the proxy and the description of the same
  row are written as \<^verbatim>\<open>N/A\<close>.
\<close>

theorem absent_title_written_empty:
  "entry_writes row_without_title ! 0 = ''TITLE: '' @ newline
   \<and> entry_writes row_without_title ! 1 = ''CITED_BY_TOTAL: N/A'' @ newline
   \<and> entry_writes row_without_title ! 2 = ''CITATIONS_PER_YEAR_PROXY: N/A'' @ newline
   \<and> entry_writes row_without_title ! 4 = ''N/A'' @ newline"
  by (simp add: entry_writes_def row_without_title_def clean_text_def)

section \<open>Termination of the paginator\<close>

text \<open>
  Every turn of the loop makes one call of \<^verbatim>\<open>cache_get\<close>, which either sends a request
  or reads a cache file; the sum of both counts the pages loaded.
\<close>

lemma path_join2_nonempty: "path \<noteq> [] \<or> b \<noteq> [] \<Longrightarrow> path_join2 path b \<noteq> []"
  by (cases b) (auto simp: path_join2_def startswith_def)

lemma path_join2_slash:
  assumes "path \<noteq> []"
  shows "CHR ''/'' \<in> set (path_join2 path b)"
proof (cases "startswith b ''/''")
  case True
  then have "b \<noteq> []" "hd b = CHR ''/''"
    by (cases b; simp add: startswith_def)+
  then have "CHR ''/'' \<in> set b" by (cases b) auto
  with True show ?thesis by (simp add: path_join2_def)
next
  case False
  show ?thesis
  proof (cases "last path = CHR ''/''")
    case True
    then have "CHR ''/'' \<in> set path" using assms last_in_set by metis
    with False True show ?thesis by (simp add: path_join2_def)
  next
    case no_slash: False
    with False assms show ?thesis by (simp add: path_join2_def)
  qed
qed

lemma author_page_cache_path_dir: "dirname (author_page_cache_path cache_dir user_id cstart) \<noteq> []"
  unfolding author_page_cache_path_def os_path_join_def
  by (rule dirname_nonempty) (simp add: path_join2_slash path_join2_nonempty del: append.simps)

lemma cache_get_adversarial:
  assumes "adversarial net soup w" and dir: "dirname key \<noteq> []"
  shows "\<exists>html w1. cache_get net (Some u) key s False w = (Inr html, w1)
           \<and> listing_continues soup html \<and> adversarial net soup w1"
proof (cases "files w key")
  case (Some h)
  with assms show ?thesis
    by (auto simp: cache_get_def adversarial_def)
next
  case None
  define w0 where "w0 = (if s > 0 then w\<lparr>slept := slept w + s\<rparr> else w)"
  from assms obtain resp where resp: "net u (requests w0) = Inr resp"
    "\<not> (400 \<le> status_code resp \<and> status_code resp < 600)" "listing_continues soup (text_of resp)"
    "listing_continues soup (universal_newlines (text_of resp))"
    unfolding adversarial_def by blast
  have "cache_get net (Some u) key s False w
          = (Inr (text_of resp), w0\<lparr>requests := requests w0 + 1, files := (files w0)(key \<mapsto> text_of resp)\<rparr>)"
    using None resp(1,2) dir
    by (auto simp: cache_get_def requests_get_def raise_for_status_def ensure_dir_def Let_def w0_def)
  moreover have "adversarial net soup (w0\<lparr>requests := requests w0 + 1, files := (files w0)(key \<mapsto> text_of resp)\<rparr>)"
    using assms(1) resp(4) by (auto simp: adversarial_def w0_def)
  ultimately show ?thesis using resp(3) by blast
qed

lemma author_pubs_loop_bound:
  "0 \<le> page \<Longrightarrow> page \<le> 500 \<Longrightarrow>
   author_pubs_loop net soup user_id cache_dir sleep_fetch pagesize max_pubs pubs_all cstart page w = (r, w')
   \<Longrightarrow> requests w' + reads w' \<le> requests w + reads w + nat (501 - page)"
proof (induction "nat (500 - page)" arbitrary: page pubs_all cstart w)
  case 0
  then have page: "page = 500" by simp
  obtain r1 w1 where cg: "cache_get net (Some (author_page_url user_id cstart pagesize))
      (author_page_cache_path cache_dir user_id cstart) sleep_fetch False w = (r1, w1)"
    by (cases "cache_get net (Some (author_page_url user_id cstart pagesize))
      (author_page_cache_path cache_dir user_id cstart) sleep_fetch False w")
  from "0.prems"(3) cg page have "w' = w1"
    by (subst (asm) author_pubs_loop.simps)
       (auto simp: Let_def split: sum.splits if_splits)
  with cache_get_counts [OF cg] page show ?case by simp
next
  case (Suc k)
  then have page: "page < 500" "nat (500 - (page + 1)) = k" by simp_all
  obtain r1 w1 where cg: "cache_get net (Some (author_page_url user_id cstart pagesize))
      (author_page_cache_path cache_dir user_id cstart) sleep_fetch False w = (r1, w1)"
    by (cases "cache_get net (Some (author_page_url user_id cstart pagesize))
      (author_page_cache_path cache_dir user_id cstart) sleep_fetch False w")
  from Suc.prems(3) cg have
    "w' = w1 \<or> (\<exists>pubs_all1. author_pubs_loop net soup user_id cache_dir sleep_fetch pagesize max_pubs
                    pubs_all1 (cstart + pagesize) (page + 1) w1 = (r, w'))"
    by (subst (asm) author_pubs_loop.simps)
       (auto simp: Let_def split: sum.splits if_splits)
  then show ?case
  proof
    assume "w' = w1"
    with cache_get_counts [OF cg] Suc.prems show ?thesis by simp
  next
    assume "\<exists>pubs_all1. author_pubs_loop net soup user_id cache_dir sleep_fetch pagesize max_pubs
                    pubs_all1 (cstart + pagesize) (page + 1) w1 = (r, w')"
    then obtain pubs_all1 where rec: "author_pubs_loop net soup user_id cache_dir sleep_fetch pagesize
        max_pubs pubs_all1 (cstart + pagesize) (page + 1) w1 = (r, w')" ..
    have "requests w' + reads w' \<le> requests w1 + reads w1 + nat (501 - (page + 1))"
      using Suc.hyps(1) [OF page(2) [symmetric] _ _ rec] Suc.prems(1) page(1) by simp
    with cache_get_counts [OF cg] Suc.prems(1) page(1) show ?thesis by simp
  qed
qed

lemma author_pubs_loop_adversarial:
  "0 \<le> page \<Longrightarrow> page \<le> 500 \<Longrightarrow> adversarial net soup w \<Longrightarrow>
   \<exists>pubs w'. author_pubs_loop net soup user_id cache_dir sleep_fetch pagesize None pubs_all cstart page w
                = (Inr pubs, w')
     \<and> requests w' + reads w' = requests w + reads w + nat (501 - page)
     \<and> length pubs_all + nat (501 - page) \<le> length pubs"
proof (induction "nat (500 - page)" arbitrary: page pubs_all cstart w)
  case 0
  then have page: "page = 500" by simp
  from cache_get_adversarial [OF "0.prems"(3) author_page_cache_path_dir] obtain html w1 where
    cg: "cache_get net (Some (author_page_url user_id cstart pagesize))
      (author_page_cache_path cache_dir user_id cstart) sleep_fetch False w = (Inr html, w1)"
    and html: "listing_continues soup html" by blast
  have "author_pubs_loop net soup user_id cache_dir sleep_fetch pagesize None pubs_all cstart page w
          = (Inr (pubs_all @ parse_author_page_for_pubs (soup html)), w1)"
    using cg html page
    by (subst author_pubs_loop.simps) (auto simp: Let_def listing_continues_def)
  moreover have "1 \<le> length (parse_author_page_for_pubs (soup html))"
    using html by (cases "parse_author_page_for_pubs (soup html)") (simp_all add: listing_continues_def)
  ultimately show ?case
    using cache_get_counts [OF cg] page by simp
next
  case (Suc k)
  then have page: "page < 500" "nat (500 - (page + 1)) = k" by simp_all
  from cache_get_adversarial [OF Suc.prems(3) author_page_cache_path_dir] obtain html w1 where
    cg: "cache_get net (Some (author_page_url user_id cstart pagesize))
      (author_page_cache_path cache_dir user_id cstart) sleep_fetch False w = (Inr html, w1)"
    and html: "listing_continues soup html" and adv: "adversarial net soup w1" by blast
  let ?pubs1 = "pubs_all @ parse_author_page_for_pubs (soup html)"
  have unfold: "author_pubs_loop net soup user_id cache_dir sleep_fetch pagesize None pubs_all cstart page w
          = author_pubs_loop net soup user_id cache_dir sleep_fetch pagesize None ?pubs1
              (cstart + pagesize) (page + 1) w1"
    using cg html page(1)
    by (subst author_pubs_loop.simps) (auto simp: Let_def listing_continues_def)
  have len: "1 \<le> length (parse_author_page_for_pubs (soup html))"
    using html by (cases "parse_author_page_for_pubs (soup html)") (simp_all add: listing_continues_def)
  from Suc.hyps(1) [OF page(2) [symmetric] _ _ adv, of ?pubs1 "cstart + pagesize"] Suc.prems(1) page(1)
  obtain pubs w' where rec:
    "author_pubs_loop net soup user_id cache_dir sleep_fetch pagesize None ?pubs1
       (cstart + pagesize) (page + 1) w1 = (Inr pubs, w')"
    "requests w' + reads w' = requests w1 + reads w1 + nat (501 - (page + 1))"
    "length ?pubs1 + nat (501 - (page + 1)) \<le> length pubs"
    by auto
  have step: "nat (501 - page) = Suc (nat (501 - (page + 1)))"
    using Suc.prems(1) page(1) by simp
  show ?case
    using unfold rec cache_get_counts [OF cg] len
    by (intro exI [of _ pubs] exI [of _ w']) (simp add: step)
qed

text \<open>
  C8: the paginator is a total function (its loop is defined with a termination proof)
  and loads at most 501 pages, whatever the listing, the cache and the network do. Against
  an adversarial listing, which always answers with an enabled next-page button and at
  least one stub row, it loads exactly 501 pages (page counter 0 to 500) and then
  returns the stubs collected.
\<close>

theorem paginator_stops_at_safety_bound:
  assumes "get_all_author_pubs net soup user_id cache_dir sleep_fetch pagesize max_pubs w = (r, w')"
  shows "requests w' + reads w' \<le> requests w + reads w + 501
         \<and> (adversarial net soup w \<and> max_pubs = None \<longrightarrow>
              requests w' + reads w' = requests w + reads w + 501
              \<and> (\<exists>pubs. r = Inr pubs \<and> 501 \<le> length pubs))"
proof
  show "requests w' + reads w' \<le> requests w + reads w + 501"
    using author_pubs_loop_bound [OF _ _ assms [unfolded get_all_author_pubs_def]] by simp
next
  show "adversarial net soup w \<and> max_pubs = None \<longrightarrow>
          requests w' + reads w' = requests w + reads w + 501
          \<and> (\<exists>pubs. r = Inr pubs \<and> 501 \<le> length pubs)"
  proof
    assume adv: "adversarial net soup w \<and> max_pubs = None"
    then have "\<exists>pubs w1. author_pubs_loop net soup user_id cache_dir sleep_fetch pagesize None [] 0 0 w
                 = (Inr pubs, w1)
               \<and> requests w1 + reads w1 = requests w + reads w + nat (501 - 0)
               \<and> length ([] :: stub list) + nat (501 - 0) \<le> length pubs"
      by (intro author_pubs_loop_adversarial) simp_all
    with adv assms show "requests w' + reads w' = requests w + reads w + 501
          \<and> (\<exists>pubs. r = Inr pubs \<and> 501 \<le> length pubs)"
      by (auto simp: get_all_author_pubs_def)
  qed
qed

lemma adversarial_net_ok: "adversarial net_ok soup_next_page world0"
  by (simp add: adversarial_def listing_continues_def net_ok_def world0_def not_captcha_ok_body
        soup_next_page_def parse_author_page_for_pubs_def row_with_href_def
        next_cstart_from_author_page_def)

theorem paginator_stops_at_safety_bound_witness:
  "requests (snd (get_all_author_pubs net_ok soup_next_page ''u'' ''cache'' 2 100 None world0))
     + reads (snd (get_all_author_pubs net_ok soup_next_page ''u'' ''cache'' 2 100 None world0)) = 501
   \<and> (\<exists>pubs. fst (get_all_author_pubs net_ok soup_next_page ''u'' ''cache'' 2 100 None world0) = Inr pubs
              \<and> 501 \<le> length pubs)"
  using paginator_stops_at_safety_bound [OF surjective_pairing,
          of net_ok soup_next_page "''u''" "''cache''" 2 100 None world0]
        adversarial_net_ok
  by (simp add: world0_def)

section \<open>Year-to-count dictionaries\<close>

lemma set_strip_subset: "set (strip s) \<subseteq> set s"
  unfolding strip_def
  by (metis set_dropWhileD set_rev subsetI)

lemma py_int_isdigit_nonneg:
  assumes "isdigit s" "py_int s = Some i"
  shows "0 \<le> i"
proof (cases "strip s")
  case Nil
  with assms show ?thesis by (simp add: py_int_def)
next
  case (Cons c cs)
  then have "c \<in> set s" using set_strip_subset [of s] by auto
  with assms(1) have "is_digit c" by (simp add: isdigit_def list_all_iff)
  then have "c \<noteq> CHR ''-''" by (auto simp: is_digit_def)
  with assms(2) Cons show ?thesis
    by (auto simp: py_int_def split: if_splits)
qed

lemma nonneg_counts_update:
  "nonneg_counts d \<Longrightarrow> 0 \<le> v \<Longrightarrow> nonneg_counts (AList.update k v d)"
  by (simp add: nonneg_counts_def update_conv')

lemma assign_all_nonneg:
  "assign_all ps d = Inr d' \<Longrightarrow> digit_groups ps \<Longrightarrow> nonneg_counts d \<Longrightarrow> nonneg_counts d'"
proof (induction ps d rule: assign_all.induct)
  case (1 d)
  then show ?case by simp
next
  case (2 y c ps d)
  then show ?case
    by (auto simp: digit_groups_def split: option.splits
             intro!: nonneg_counts_update py_int_isdigit_nonneg)
qed

lemma ints_nonneg:
  "ints xs = Inr is \<Longrightarrow> list_all isdigit xs \<Longrightarrow> list_all (\<lambda>i. 0 \<le> i) is"
  by (induction xs arbitrary: "is")
     (auto split: option.splits sum.splits intro: py_int_isdigit_nonneg)

lemma fold_update_nonneg:
  "nonneg_counts d \<Longrightarrow> list_all (\<lambda>(y, c). 0 \<le> c) yc
   \<Longrightarrow> nonneg_counts (fold (\<lambda>(y, c) d. AList.update y c d) yc d)"
  by (induction yc arbitrary: d) (auto intro: nonneg_counts_update)

lemma list_all_zip_snd:
  "list_all P cs \<Longrightarrow> list_all (\<lambda>(y, c). P c) (zip ys cs)"
  by (auto simp: list_all_iff dest: set_zip_rightD)

lemma nonneg_counts_Nil: "nonneg_counts []"
  by (simp add: nonneg_counts_def)

lemma chart_nonneg:
  assumes "chart_cites_by_year soup = Inr d" "detail_groups_ok soup"
  shows "nonneg_counts d"
proof (cases "pattern_a soup")
  case (Some ps)
  with assms have "assign_all ps [] = Inr d" "digit_groups ps"
    by (simp_all add: chart_cites_by_year_def detail_groups_ok_def)
  then show ?thesis
    using assign_all_nonneg nonneg_counts_Nil by blast
next
  case None
  show ?thesis
  proof (cases "pattern_b soup")
    case None
    with \<open>pattern_a soup = None\<close> assms(1) show ?thesis
      by (simp add: chart_cites_by_year_def nonneg_counts_Nil)
  next
    case (Some yc)
    obtain ys cs where yc: "yc = (ys, cs)" by (cases yc)
    with Some \<open>pattern_a soup = None\<close> assms obtain years cites where
      "ints cs = Inr cites" "list_all isdigit cs"
      "d = fold (\<lambda>(y, c) d. AList.update y c d) (zip years cites) []"
      by (auto simp: chart_cites_by_year_def detail_groups_ok_def split: sum.splits)
    then show ?thesis
      using fold_update_nonneg [OF nonneg_counts_Nil list_all_zip_snd [OF ints_nonneg]]
      by simp
  qed
qed

lemma playwright_nonneg:
  assumes "extract_cites_by_year_playwright browser url w = (Inr d, w')"
    and "\<forall>u n page. browser u n = Inr page \<longrightarrow> rendered_groups_ok page"
  shows "nonneg_counts d"
proof -
  from assms(1) obtain page where page: "browser url (renders w) = Inr page"
    by (auto simp: extract_cites_by_year_playwright_def Let_def split: sum.splits)
  with assms(2) have ok: "digit_groups (List.map_filter id (aria_citations page))"
    "digit_groups (body_citations page)"
    by (auto simp: rendered_groups_ok_def)
  from assms(1) page have
    "assign_all (List.map_filter id (aria_citations page)) [] = Inr d
     \<or> assign_all (body_citations page) [] = Inr d"
    by (auto simp: extract_cites_by_year_playwright_def Let_def split: sum.splits if_splits)
  with ok show ?thesis
    using assign_all_nonneg nonneg_counts_Nil by blast
qed

lemma playwright_renders:
  "extract_cites_by_year_playwright browser url w = (r, w') \<Longrightarrow> renders w' = renders w + 1"
  unfolding extract_cites_by_year_playwright_def Let_def
  by (auto split: sum.splits if_splits)

lemma upto_horizon:
  "[YEAR_MIN..YEAR_MAX] = [2015, 2016, 2017, 2018, 2019, 2020, 2021, 2022, 2023, 2024, 2025, 2026]"
  unfolding YEAR_MIN_def YEAR_MAX_def by (simp add: upto.simps)

lemma cites_columns: "map fst (cites_2015_2026 d) = horizon_columns"
  unfolding cites_2015_2026_def upto_horizon horizon_columns_def
  by (simp add: str_int_def digit_char_def)

lemma cites_values:
  "(k, v) \<in> set (cites_2015_2026 d) \<Longrightarrow>
   \<exists>y. YEAR_MIN \<le> y \<and> y \<le> YEAR_MAX \<and> k = ''cites_'' @ str_int y \<and> v = map_of d y"
  unfolding cites_2015_2026_def by auto

lemma cites_series_ok: "nonneg_counts d \<Longrightarrow> series_ok (cites_2015_2026 d)"
  unfolding series_ok_def
  by (auto simp: cites_columns list_all_iff nonneg_counts_def split: option.splits dest!: cites_values)

lemma merge_row_cites:
  "merge_row user_id faculty_name department p parsed rendered = Inr r \<Longrightarrow>
   r_cites r = cites_2015_2026 (if rendered \<noteq> [] then rendered else p_cites_by_year parsed)"
  by (auto simp: merge_row_def Let_def split: sum.splits)

lemma merge_row_series_ok:
  "merge_row user_id faculty_name department p parsed rendered = Inr r \<Longrightarrow>
   nonneg_counts (p_cites_by_year parsed) \<Longrightarrow> nonneg_counts rendered \<Longrightarrow>
   series_ok (r_cites r)"
  by (simp add: merge_row_cites cites_series_ok)

lemma parse_view_citation_series:
  "parse_view_citation html soup = Inr parsed \<Longrightarrow> chart_cites_by_year soup = Inr (p_cites_by_year parsed)"
  by (auto simp: parse_view_citation_def Let_def split: sum.splits)

text \<open>One turn of the loop over the publications, in a run that returns rows.\<close>

lemma professor_rows_step:
  assumes "professor_rows net soup browser user_id faculty_name department cache_dir sleep_fetch i
             (p # ps) w = (Inr rows, w')"
  obtains html w1 rendered w2 parsed row rest where
    "cache_get net (s_view_citation_url p) (view_page_cache_path cache_dir user_id i) sleep_fetch False w
       = (Inr html, w1)"
    "extract_cites_by_year_playwright browser (s_view_citation_url p) w1 = (Inr rendered, w2)"
    "\<not> looks_like_captcha html"
    "parse_view_citation html (soup html) = Inr parsed"
    "merge_row user_id faculty_name department p parsed rendered = Inr row"
    "professor_rows net soup browser user_id faculty_name department cache_dir sleep_fetch (i + 1) ps w2
       = (Inr rest, w')"
    "rows = row # rest"
  using assms
  by (auto simp: Let_def split: prod.splits sum.splits if_splits)

lemma professor_rows_series_ok:
  assumes "\<forall>html. detail_groups_ok (soup html)"
    and "\<forall>u n page. browser u n = Inr page \<longrightarrow> rendered_groups_ok page"
  shows "professor_rows net soup browser user_id faculty_name department cache_dir sleep_fetch i pubs w
           = (Inr rows, w') \<Longrightarrow> list_all (\<lambda>r. series_ok (r_cites r)) rows"
proof (induction pubs arbitrary: i w rows)
  case Nil
  then show ?case by simp
next
  case (Cons p ps)
  from Cons.prems obtain html w1 rendered w2 parsed row rest where
    step: "extract_cites_by_year_playwright browser (s_view_citation_url p) w1 = (Inr rendered, w2)"
      "parse_view_citation html (soup html) = Inr parsed"
      "merge_row user_id faculty_name department p parsed rendered = Inr row"
      "professor_rows net soup browser user_id faculty_name department cache_dir sleep_fetch (i + 1) ps w2
         = (Inr rest, w')"
      "rows = row # rest"
    by (rule professor_rows_step)
  have "nonneg_counts rendered"
    using playwright_nonneg [OF step(1) assms(2)] .
  moreover have "nonneg_counts (p_cites_by_year parsed)"
    using chart_nonneg [OF parse_view_citation_series [OF step(2)]] assms(1) by blast
  ultimately show ?case
    using Cons.IH [OF step(4)] step(5) merge_row_series_ok [OF step(3)] by simp
qed

section \<open>Evaluation of the concrete inputs\<close>

lemmas py_int_eval = py_int_def strip_def is_space_def int_unsigned_def is_digit_def digit_val_def

lemma parse_detail_year_zero:
  "parse_view_citation [] detail_year_zero
     = Inr \<lparr>p_title = Some ''A paper in detail'', p_pub_year = Some 0, p_cited_by_total = None,
            p_abstract = None, p_cites_by_year = [], p_fields = [(''Publication date'', ''0000'')]\<rparr>"
  by (simp add: parse_view_citation_def detail_year_zero_def chart_cites_by_year_def Let_def py_int_eval)

lemma parse_detail_with_chart: "parse_view_citation html detail_with_chart = Inr parsed_with_chart"
  by (simp add: parse_view_citation_def detail_with_chart_def chart_cites_by_year_def Let_def py_int_eval
        match_cited_by_def startswith_def parsed_with_chart_def)

lemma render_with_bar:
  "extract_cites_by_year_playwright browser_with_bar url w = (Inr [(2020, 7)], w\<lparr>renders := renders w + 1\<rparr>)"
  by (simp add: extract_cites_by_year_playwright_def browser_with_bar_def rendered_with_bar_def Let_def
        lower_def lower_char_def startswith_def List.map_filter_def py_int_eval)

lemma merge_with_bar:
  "merge_row ''u'' ''F'' ''CS'' stub_2019 parsed_with_chart [(2020, 7)] = Inr row_with_bar"
proof -
  have "citations_per_year_proxy (Some 40) (Some 2020) YEAR_MAX = Inr (Some (round_double (40 / 7)))"
    using proxy_small [of 40 YEAR_MAX 2020] by (simp add: YEAR_MAX_def)
  then show ?thesis
    by (simp add: merge_row_def parsed_with_chart_def stub_2019_def row_with_bar_def or_int_def
          or_str_def Let_def)
qed

lemma cites_2020: "map_of (cites_2015_2026 d) ''cites_2020'' = Some (map_of d 2020)"
  unfolding cites_2015_2026_def upto_horizon
  by (simp add: str_int_def digit_char_def)

lemma cites_2021: "map_of (cites_2015_2026 d) ''cites_2021'' = Some (map_of d 2021)"
  unfolding cites_2015_2026_def upto_horizon
  by (simp add: str_int_def digit_char_def)

lemma chart_detail_with_chart:
  "chart_cites_by_year detail_with_chart = Inr [(2020, 5), (2021, 6)]"
  by (simp add: chart_cites_by_year_def detail_with_chart_def py_int_eval)

lemma view_path0: "view_page_cache_path ''cache'' ''u'' 0 = ''cache/view_pages/u/pub_00000.html''"
  by code_simp

lemma view_path0_dir: "dirname ''cache/view_pages/u/pub_00000.html'' \<noteq> []"
  by (rule dirname_nonempty) simp

lemma fetch_view_page:
  "files w ''cache/view_pages/u/pub_00000.html'' = None \<Longrightarrow>
   cache_get net_ok (s_view_citation_url stub_2019) ''cache/view_pages/u/pub_00000.html'' 2 False w
     = (Inr ''<html>ok</html>'',
        w\<lparr>files := (files w)(''cache/view_pages/u/pub_00000.html'' \<mapsto> ''<html>ok</html>''),
           requests := requests w + 1, slept := slept w + 2\<rparr>)"
  by (simp add: cache_get_def requests_get_def raise_for_status_def ensure_dir_def view_path0_dir
        net_ok_def Let_def stub_2019_def)

lemma one_pub_rows_gen:
  "files w ''cache/view_pages/u/pub_00000.html'' = None \<Longrightarrow>
   professor_rows net_ok (\<lambda>html. detail_with_chart) browser_with_bar ''u'' ''F'' ''CS'' ''cache'' 2 0
       [stub_2019] w
     = (Inr [row_with_bar],
        w\<lparr>files := (files w)(''cache/view_pages/u/pub_00000.html'' \<mapsto> ''<html>ok</html>''),
           requests := requests w + 1, slept := slept w + 2, renders := renders w + 1\<rparr>)"
  by (simp add: view_path0 fetch_view_page render_with_bar parse_detail_with_chart
        not_captcha_ok_body merge_with_bar Let_def)

lemma one_pub_rows:
  "professor_rows net_ok (\<lambda>html. detail_with_chart) browser_with_bar ''u'' ''F'' ''CS'' ''cache'' 2 0
       [stub_2019] world0
     = (Inr [row_with_bar],
        world0\<lparr>files := (files world0)(''cache/view_pages/u/pub_00000.html'' \<mapsto> ''<html>ok</html>''),
           requests := requests world0 + 1, slept := slept world0 + 2, renders := renders world0 + 1\<rparr>)"
  by (rule one_pub_rows_gen) (simp add: world0_def)

lemma listing_last_page:
  "get_all_author_pubs net_ok soup_last_page ''u'' ''cache'' 2 100 None world0
     = (Inr [stub_2019],
        world0\<lparr>files := [''cache/author_pages/u/cstart_0.html'' \<mapsto> ''<html>ok</html>''],
               requests := 1, slept := 2\<rparr>)"
  unfolding get_all_author_pubs_def
  by (subst author_pubs_loop.simps)
     (simp add: first_author_page_path first_author_page_dir not_captcha_ok_body cache_get_def
        requests_get_def raise_for_status_def ensure_dir_def Let_def net_ok_def world0_def
        soup_last_page_def parse_author_page_for_pubs_def row_with_href_def row_stub_def
        stub_2019_def BASE_def startswith_def isdigit_def next_cstart_from_author_page_def py_int_eval)

lemma one_professor_run:
  "\<exists>w'. process_one_professor net_ok soup_last_page (\<lambda>html. detail_with_chart) browser_with_bar
      ''u'' ''F'' ''CS'' ''cache'' 2 None world0 = (Inr [row_with_bar], w')"
proof -
  have cold: "files (world0\<lparr>files := [''cache/author_pages/u/cstart_0.html'' \<mapsto> ''<html>ok</html>''],
               requests := 1, slept := 2\<rparr>) ''cache/view_pages/u/pub_00000.html'' = None"
    by (simp add: world0_def)
  show ?thesis
    unfolding process_one_professor_def listing_last_page prod.case sum.case one_pub_rows_gen [OF cold]
    by (simp add: in_horizon_def row_with_bar_def YEAR_MIN_def YEAR_MAX_def)
qed

section \<open>Series stored in the merged record\<close>

text \<open>
  The claim C2 as stated fails: the detail page \<open>detail_with_chart\<close> has a non-empty
  chart in its source (2020: 5, 2021: 6), yet the rendered page is loaded for it, and the
  row stores the rendered series (2020: 7, nothing for 2021).
\<close>

theorem rendered_series_overrides_primary_counterexample:
  "chart_cites_by_year detail_with_chart = Inr [(2020, 5), (2021, 6)]
   \<and> renders (snd (professor_rows net_ok (\<lambda>html. detail_with_chart) browser_with_bar
                     ''u'' ''F'' ''CS'' ''cache'' 2 0 [stub_2019] world0)) = 1
   \<and> (case fst (professor_rows net_ok (\<lambda>html. detail_with_chart) browser_with_bar
                     ''u'' ''F'' ''CS'' ''cache'' 2 0 [stub_2019] world0) of
         Inr [r] \<Rightarrow> map_of (r_cites r) ''cites_2020'' = Some (Some 7)
                    \<and> map_of (r_cites r) ''cites_2021'' = Some None
       | _ \<Rightarrow> False)"
  unfolding one_pub_rows
  by (simp add: row_with_bar_def cites_2020 cites_2021 chart_detail_with_chart world0_def)

lemma professor_rows_renders_mono:
  "renders w \<le> renders (snd (professor_rows net soup browser user_id faculty_name department
                                 cache_dir sleep_fetch i pubs w))"
proof (induction pubs arbitrary: i w)
  case Nil
  then show ?case by simp
next
  case (Cons p ps)
  obtain r1 w1 where cg: "cache_get net (s_view_citation_url p)
      (view_page_cache_path cache_dir user_id i) sleep_fetch False w = (r1, w1)"
    by (cases "cache_get net (s_view_citation_url p)
      (view_page_cache_path cache_dir user_id i) sleep_fetch False w")
  obtain r2 w2 where pw: "extract_cites_by_year_playwright browser (s_view_citation_url p) w1 = (r2, w2)"
    by (cases "extract_cites_by_year_playwright browser (s_view_citation_url p) w1")
  have le: "renders w \<le> renders w1" "renders w1 \<le> renders w2"
    using cache_get_renders [OF cg] playwright_renders [OF pw] by simp_all
  have "snd (professor_rows net soup browser user_id faculty_name department cache_dir sleep_fetch i
               (p # ps) w)
          \<in> {w1, w2, snd (professor_rows net soup browser user_id faculty_name department cache_dir
                             sleep_fetch (i + 1) ps w2)}"
    using cg pw by (auto simp: Let_def split: prod.splits sum.splits)
  then show ?case
    using le Cons.IH [where i = "i + 1" and w = w2] by auto
qed

lemma professor_rows_render_first:
  assumes "cache_get net (s_view_citation_url p) (view_page_cache_path cache_dir user_id i)
             sleep_fetch False w = (Inr html, w1)"
  shows "renders w + 1 \<le> renders (snd (professor_rows net soup browser user_id faculty_name department
                                            cache_dir sleep_fetch i (p # ps) w))"
    and "extract_cites_by_year_playwright browser (s_view_citation_url p) w1 = (Inl e, w2) \<Longrightarrow>
         professor_rows net soup browser user_id faculty_name department cache_dir sleep_fetch i
           (p # ps) w = (Inl e, w2)"
proof -
  obtain r2 w2' where pw: "extract_cites_by_year_playwright browser (s_view_citation_url p) w1 = (r2, w2')"
    by (cases "extract_cites_by_year_playwright browser (s_view_citation_url p) w1")
  have r: "renders w2' = renders w + 1"
    using cache_get_renders [OF assms] playwright_renders [OF pw] by simp
  have "snd (professor_rows net soup browser user_id faculty_name department cache_dir sleep_fetch i
               (p # ps) w)
          \<in> {w2', snd (professor_rows net soup browser user_id faculty_name department cache_dir
                          sleep_fetch (i + 1) ps w2')}"
    using assms pw by (auto simp: Let_def split: prod.splits sum.splits)
  then show "renders w + 1 \<le> renders (snd (professor_rows net soup browser user_id faculty_name
                                  department cache_dir sleep_fetch i (p # ps) w))"
    using r professor_rows_renders_mono [where w = w2' and net = net and soup = soup
        and browser = browser and user_id = user_id and faculty_name = faculty_name
        and department = department and cache_dir = cache_dir and sleep_fetch = sleep_fetch
        and i = "i + 1" and pubs = ps]
    by auto
next
  assume "extract_cites_by_year_playwright browser (s_view_citation_url p) w1 = (Inl e, w2)"
  with assms show "professor_rows net soup browser user_id faculty_name department cache_dir
      sleep_fetch i (p # ps) w = (Inl e, w2)"
    by (simp add: Let_def)
qed

lemma professor_rows_series:
  "professor_rows net soup browser user_id faculty_name department cache_dir sleep_fetch i pubs w
     = (Inr rows, w') \<Longrightarrow>
   renders w' = renders w + length pubs \<and> length rows = length pubs
   \<and> (\<forall>k<length pubs.
         series_choice net soup browser sleep_fetch (pubs ! k)
           (view_page_cache_path cache_dir user_id (i + k))
           (snd (professor_rows net soup browser user_id faculty_name department cache_dir
                   sleep_fetch i (take k pubs) w))
           (renders w + k + 1) (rows ! k))"
proof (induction pubs arbitrary: i w rows)
  case Nil
  then show ?case by simp
next
  case (Cons p ps)
  from Cons.prems obtain html w1 rendered w2 parsed row rest where
    step: "cache_get net (s_view_citation_url p) (view_page_cache_path cache_dir user_id i) sleep_fetch False w
             = (Inr html, w1)"
      "extract_cites_by_year_playwright browser (s_view_citation_url p) w1 = (Inr rendered, w2)"
      "\<not> looks_like_captcha html"
      "parse_view_citation html (soup html) = Inr parsed"
      "merge_row user_id faculty_name department p parsed rendered = Inr row"
      "professor_rows net soup browser user_id faculty_name department cache_dir sleep_fetch (i + 1) ps w2
         = (Inr rest, w')"
      "rows = row # rest"
    by (rule professor_rows_step)
  have r2: "renders w2 = renders w + 1"
    using cache_get_renders [OF step(1)] playwright_renders [OF step(2)] by simp
  note IH = Cons.IH [OF step(6)]
  have head: "series_choice net soup browser sleep_fetch p (view_page_cache_path cache_dir user_id i) w
                (renders w + 1) row"
    unfolding series_choice_def
    using step(1,2,4) r2 merge_row_cites [OF step(5)] by blast
  have snd_step: "snd (professor_rows net soup browser user_id faculty_name department cache_dir
                         sleep_fetch i (p # xs) w)
                    = snd (professor_rows net soup browser user_id faculty_name department cache_dir
                             sleep_fetch (i + 1) xs w2)" for xs
    using step(1-5) by (simp add: Let_def split: prod.splits sum.splits)
  have "series_choice net soup browser sleep_fetch ((p # ps) ! k)
           (view_page_cache_path cache_dir user_id (i + k))
           (snd (professor_rows net soup browser user_id faculty_name department cache_dir
                   sleep_fetch i (take k (p # ps)) w))
           (renders w + k + 1) (rows ! k)" if "k < length (p # ps)" for k
  proof (cases k)
    case 0
    with head step(7) show ?thesis by simp
  next
    case (Suc j)
    with that have "j < length ps" by simp
    with IH have "series_choice net soup browser sleep_fetch (ps ! j)
           (view_page_cache_path cache_dir user_id (i + 1 + j))
           (snd (professor_rows net soup browser user_id faculty_name department cache_dir
                   sleep_fetch (i + 1) (take j ps) w2))
           (renders w2 + j + 1) (rest ! j)"
      by blast
    then show ?thesis
      using Suc step(7) r2 snd_step [of "take j ps"] by (simp add: add.commute add.left_commute)
  qed
  then show ?case
    using IH r2 step(7) by simp
qed

text \<open>
  C2 (amended): for every publication whose detail body is fetched, the rendered-DOM
  extractor is invoked once, whatever the static parse would return: the page is
  loaded before the block classifier and the static parse are applied to the body, so
  that a failure of the rendering is the outcome of the run whatever the body and the
  parser are. In a run that returns rows, publication \<open>k\<close> causes page load number
  \<open>k + 1\<close>, and the series stored in its record is the rendered-DOM series of its own
  detail URL when that is non-empty, and otherwise the series of the static parse of
  its own fetched body.
\<close>

theorem rendered_series_takes_precedence:
  "(professor_rows net soup browser user_id faculty_name department cache_dir sleep_fetch i pubs w
      = (Inr rows, w') \<longrightarrow>
      renders w' = renders w + length pubs \<and> length rows = length pubs
      \<and> (\<forall>k<length pubs.
            series_choice net soup browser sleep_fetch (pubs ! k)
              (view_page_cache_path cache_dir user_id (i + k))
              (snd (professor_rows net soup browser user_id faculty_name department cache_dir
                      sleep_fetch i (take k pubs) w))
              (renders w + k + 1) (rows ! k)))
   \<and> (cache_get net (s_view_citation_url p) (view_page_cache_path cache_dir user_id i)
         sleep_fetch False w = (Inr html, w1) \<longrightarrow>
        renders w + 1 \<le> renders (snd (professor_rows net soup browser user_id faculty_name
                                          department cache_dir sleep_fetch i (p # ps) w))
        \<and> (\<forall>e w2. extract_cites_by_year_playwright browser (s_view_citation_url p) w1 = (Inl e, w2) \<longrightarrow>
               professor_rows net soup browser user_id faculty_name department cache_dir
                 sleep_fetch i (p # ps) w = (Inl e, w2)))"
  using professor_rows_series [where net = net and soup = soup and browser = browser
          and user_id = user_id and faculty_name = faculty_name and department = department
          and cache_dir = cache_dir and sleep_fetch = sleep_fetch and i = i and pubs = pubs
          and w = w and rows = rows and w' = w']
        professor_rows_render_first [where net = net and p = p and cache_dir = cache_dir
          and user_id = user_id and i = i and sleep_fetch = sleep_fetch and w = w
          and html = html and ?w1.0 = w1 and soup = soup and browser = browser
          and faculty_name = faculty_name and department = department and ps = ps]
  by blast

theorem rendered_series_takes_precedence_witness:
  "series_choice net_ok (\<lambda>html. detail_with_chart) browser_with_bar 2 stub_2019
     ''cache/view_pages/u/pub_00000.html'' world0 1 row_with_bar
   \<and> 1 \<le> renders (snd (professor_rows net_ok (\<lambda>html. detail_with_chart) browser_with_bar
                          ''u'' ''F'' ''CS'' ''cache'' 2 0 [stub_2019] world0))"
proof -
  have fetch: "cache_get net_ok (s_view_citation_url stub_2019) (view_page_cache_path ''cache'' ''u'' 0)
                 2 False world0
                 = (Inr ''<html>ok</html>'',
                    world0\<lparr>files := (files world0)(''cache/view_pages/u/pub_00000.html'' \<mapsto> ''<html>ok</html>''),
                           requests := requests world0 + 1, slept := slept world0 + 2\<rparr>)"
    unfolding view_path0 by (rule fetch_view_page) (simp add: world0_def)
  note inst = rendered_series_takes_precedence [where net = net_ok
      and soup = "\<lambda>html. detail_with_chart" and browser = browser_with_bar and user_id = "''u''"
      and faculty_name = "''F''" and department = "''CS''" and cache_dir = "''cache''"
      and sleep_fetch = 2 and i = 0 and pubs = "[stub_2019]" and w = world0
      and rows = "[row_with_bar]" and p = stub_2019 and ps = "[]"]
  from inst [THEN conjunct1, rule_format, OF one_pub_rows]
  have "series_choice net_ok (\<lambda>html. detail_with_chart) browser_with_bar 2 ([stub_2019] ! 0)
          (view_page_cache_path ''cache'' ''u'' (0 + 0))
          (snd (professor_rows net_ok (\<lambda>html. detail_with_chart) browser_with_bar ''u'' ''F'' ''CS''
                  ''cache'' 2 0 (take 0 [stub_2019]) world0))
          (renders world0 + 0 + 1) ([row_with_bar] ! 0)"
    by simp
  then have first: "series_choice net_ok (\<lambda>html. detail_with_chart) browser_with_bar 2 stub_2019
     ''cache/view_pages/u/pub_00000.html'' world0 1 row_with_bar"
    by (simp add: view_path0 world0_def)
  from inst [THEN conjunct2, rule_format, OF fetch]
  have "renders world0 + 1 \<le> renders (snd (professor_rows net_ok (\<lambda>html. detail_with_chart)
          browser_with_bar ''u'' ''F'' ''CS'' ''cache'' 2 0 [stub_2019] world0))"
    by simp
  with first show ?thesis by (simp add: world0_def)
qed

section \<open>Horizon of the stored series\<close>

text \<open>
  C5: in every record that \<^verbatim>\<open>process_one_professor\<close> returns, the per-year data are
  exactly the twelve columns \<^verbatim>\<open>cites_2015\<close> to \<^verbatim>\<open>cites_2026\<close>, so no year outside
  the horizon is represented, and every count present is non-negative. The counts are
  read with \<^verbatim>\<open>int\<close> from groups that the patterns \<^verbatim>\<open>\d{4}\<close> and \<^verbatim>\<open>\d+\<close> captured,
  which is what the two hypotheses on the pages state.
\<close>

theorem output_series_within_horizon:
  assumes run: "process_one_professor net soup_author soup_view browser user_id faculty_name department
             cache_dir sleep_fetch max_pubs w = (Inr rows, w')"
    and detail: "\<forall>html. detail_groups_ok (soup_view html)"
    and rendered: "\<forall>u n page. browser u n = Inr page \<longrightarrow> rendered_groups_ok page"
  shows "list_all (\<lambda>r. series_ok (r_cites r)) rows"
proof -
  from run obtain pubs w1 rows0 where
    "professor_rows net soup_view browser user_id faculty_name department cache_dir sleep_fetch 0 pubs w1
       = (Inr rows0, w')" and rows: "rows = filter in_horizon rows0"
    by (auto simp: process_one_professor_def split: prod.splits sum.splits if_splits)
  then have "list_all (\<lambda>r. series_ok (r_cites r)) rows0"
    using professor_rows_series_ok [OF detail rendered] by blast
  with rows show ?thesis by (simp add: list_all_iff)
qed

lemma detail_with_chart_ok: "detail_groups_ok detail_with_chart"
  by code_simp

lemma rendered_with_bar_ok: "rendered_groups_ok rendered_with_bar"
  by code_simp

theorem output_series_within_horizon_witness:
  "\<exists>rows w'. process_one_professor net_ok soup_last_page (\<lambda>html. detail_with_chart) browser_with_bar
                  ''u'' ''F'' ''CS'' ''cache'' 2 None world0 = (Inr rows, w')
      \<and> rows \<noteq> [] \<and> list_all (\<lambda>r. series_ok (r_cites r)) rows"
proof -
  from one_professor_run obtain w' where
    run: "process_one_professor net_ok soup_last_page (\<lambda>html. detail_with_chart) browser_with_bar
            ''u'' ''F'' ''CS'' ''cache'' 2 None world0 = (Inr [row_with_bar], w')"
    by blast
  have "list_all (\<lambda>r. series_ok (r_cites r)) [row_with_bar]"
    using output_series_within_horizon [OF run]
    by (simp add: detail_with_chart_ok rendered_with_bar_ok browser_with_bar_def)
  with run show ?thesis by blast
qed

section \<open>Merge precedence\<close>

lemma merge_row_fields:
  "merge_row user_id faculty_name department p parsed rendered = Inr r \<Longrightarrow>
   r_title r = or_str (p_title parsed) (Some (s_title p))
   \<and> r_publication_year r = or_int (p_pub_year parsed) (s_year p)
   \<and> r_cited_by_total r = (case p_cited_by_total parsed of None \<Rightarrow> s_cited_by_from_list p | Some n \<Rightarrow> Some n)"
  by (auto simp: merge_row_def Let_def split: sum.splits)

lemma merge_row_error:
  "merge_row user_id faculty_name department p parsed rendered = Inl e \<Longrightarrow>
   citations_per_year_proxy
     (case p_cited_by_total parsed of None \<Rightarrow> s_cited_by_from_list p | Some n \<Rightarrow> Some n)
     (or_int (p_pub_year parsed) (s_year p)) YEAR_MAX = Inl e"
  by (auto simp: merge_row_def Let_def split: sum.splits)

text \<open>
  The claim C9 as stated fails: a detail page whose publication date reads \<^verbatim>\<open>0000\<close> has
  the detail year 0, which is present, but the merged year is the stub's 2019.
\<close>

theorem merge_year_zero_counterexample:
  "(case parse_view_citation [] detail_year_zero of
      Inl e \<Rightarrow> False
    | Inr parsed \<Rightarrow>
        p_pub_year parsed = Some 0 \<and> s_year stub_2019 = Some 2019
        \<and> (case merge_row ''u'' ''F'' ''CS'' stub_2019 parsed [] of
              Inl e \<Rightarrow> False
            | Inr r \<Rightarrow> r_publication_year r = Some 2019))"
proof -
  have "citations_per_year_proxy (Some 12) (Some 2019) YEAR_MAX = Inr (Some (round_double (12 / 8)))"
    using proxy_small [of 12 YEAR_MAX 2019] by (simp add: YEAR_MAX_def)
  then show ?thesis
    by (simp add: parse_detail_year_zero merge_row_def or_int_def Let_def stub_2019_def)
qed

text \<open>
  C9 (amended): when a stub and a detail record are merged into a record, the merged
  title is the detail title if present and not empty, else the stub title; the merged
  year is the detail year if present and not 0, else the stub year; the merged total is
  the detail total if present, else the stub's at-a-glance count. Stub year 2019 with
  absent detail year merges to 2019, and with detail year 2020 to 2020. No record is
  built only when the proxy of the merged total and year raises its exception.
\<close>

theorem merge_precedence:
  "(case merge_row user_id faculty_name department p parsed rendered of
      Inr r \<Rightarrow>
        r_title r
          = (case p_title parsed of
               None \<Rightarrow> Some (s_title p)
             | Some t \<Rightarrow> if t = [] then Some (s_title p) else Some t)
        \<and> r_publication_year r
          = (case p_pub_year parsed of
               None \<Rightarrow> s_year p
             | Some y \<Rightarrow> if y = 0 then s_year p else Some y)
        \<and> r_cited_by_total r
          = (case p_cited_by_total parsed of
               None \<Rightarrow> s_cited_by_from_list p
             | Some n \<Rightarrow> Some n)
    | Inl e \<Rightarrow>
        citations_per_year_proxy
          (case p_cited_by_total parsed of None \<Rightarrow> s_cited_by_from_list p | Some n \<Rightarrow> Some n)
          (case p_pub_year parsed of
             None \<Rightarrow> s_year p
           | Some y \<Rightarrow> if y = 0 then s_year p else Some y) YEAR_MAX = Inl e)
   \<and> (case merge_row user_id faculty_name department (p\<lparr>s_year := Some 2019\<rparr>)
              (parsed\<lparr>p_pub_year := None\<rparr>) rendered of
        Inr r \<Rightarrow> r_publication_year r = Some 2019
      | Inl e \<Rightarrow>
          citations_per_year_proxy
            (case p_cited_by_total parsed of None \<Rightarrow> s_cited_by_from_list p | Some n \<Rightarrow> Some n)
            (Some 2019) YEAR_MAX = Inl e)
   \<and> (case merge_row user_id faculty_name department (p\<lparr>s_year := Some 2019\<rparr>)
              (parsed\<lparr>p_pub_year := Some 2020\<rparr>) rendered of
        Inr r \<Rightarrow> r_publication_year r = Some 2020
      | Inl e \<Rightarrow>
          citations_per_year_proxy
            (case p_cited_by_total parsed of None \<Rightarrow> s_cited_by_from_list p | Some n \<Rightarrow> Some n)
            (Some 2020) YEAR_MAX = Inl e)"
proof (intro conjI)
  show "case merge_row user_id faculty_name department p parsed rendered of
      Inr r \<Rightarrow>
        r_title r
          = (case p_title parsed of
               None \<Rightarrow> Some (s_title p)
             | Some t \<Rightarrow> if t = [] then Some (s_title p) else Some t)
        \<and> r_publication_year r
          = (case p_pub_year parsed of
               None \<Rightarrow> s_year p
             | Some y \<Rightarrow> if y = 0 then s_year p else Some y)
        \<and> r_cited_by_total r
          = (case p_cited_by_total parsed of
               None \<Rightarrow> s_cited_by_from_list p
             | Some n \<Rightarrow> Some n)
    | Inl e \<Rightarrow>
        citations_per_year_proxy
          (case p_cited_by_total parsed of None \<Rightarrow> s_cited_by_from_list p | Some n \<Rightarrow> Some n)
          (case p_pub_year parsed of
             None \<Rightarrow> s_year p
           | Some y \<Rightarrow> if y = 0 then s_year p else Some y) YEAR_MAX = Inl e"
    using merge_row_fields [where user_id = user_id and faculty_name = faculty_name
        and department = department and p = p and parsed = parsed and rendered = rendered]
      merge_row_error [where user_id = user_id and faculty_name = faculty_name
        and department = department and p = p and parsed = parsed and rendered = rendered]
    by (auto simp: or_int_def or_str_def split: sum.splits option.splits)
next
  show "case merge_row user_id faculty_name department (p\<lparr>s_year := Some 2019\<rparr>)
              (parsed\<lparr>p_pub_year := None\<rparr>) rendered of
        Inr r \<Rightarrow> r_publication_year r = Some 2019
      | Inl e \<Rightarrow>
          citations_per_year_proxy
            (case p_cited_by_total parsed of None \<Rightarrow> s_cited_by_from_list p | Some n \<Rightarrow> Some n)
            (Some 2019) YEAR_MAX = Inl e"
    using merge_row_fields [where user_id = user_id and faculty_name = faculty_name
        and department = department and p = "p\<lparr>s_year := Some 2019\<rparr>"
        and parsed = "parsed\<lparr>p_pub_year := None\<rparr>" and rendered = rendered]
      merge_row_error [where user_id = user_id and faculty_name = faculty_name
        and department = department and p = "p\<lparr>s_year := Some 2019\<rparr>"
        and parsed = "parsed\<lparr>p_pub_year := None\<rparr>" and rendered = rendered]
    by (auto simp: or_int_def split: sum.splits option.splits)
next
  show "case merge_row user_id faculty_name department (p\<lparr>s_year := Some 2019\<rparr>)
              (parsed\<lparr>p_pub_year := Some 2020\<rparr>) rendered of
        Inr r \<Rightarrow> r_publication_year r = Some 2020
      | Inl e \<Rightarrow>
          citations_per_year_proxy
            (case p_cited_by_total parsed of None \<Rightarrow> s_cited_by_from_list p | Some n \<Rightarrow> Some n)
            (Some 2020) YEAR_MAX = Inl e"
    using merge_row_fields [where user_id = user_id and faculty_name = faculty_name
        and department = department and p = "p\<lparr>s_year := Some 2019\<rparr>"
        and parsed = "parsed\<lparr>p_pub_year := Some 2020\<rparr>" and rendered = rendered]
      merge_row_error [where user_id = user_id and faculty_name = faculty_name
        and department = department and p = "p\<lparr>s_year := Some 2019\<rparr>"
        and parsed = "parsed\<lparr>p_pub_year := Some 2020\<rparr>" and rendered = rendered]
    by (auto simp: or_int_def split: sum.splits option.splits)
qed

theorem merge_precedence_witness:
  "merge_row ''u'' ''F'' ''CS'' stub_2019 parsed_with_chart [(2020, 7)] = Inr row_with_bar
   \<and> r_title row_with_bar = Some ''A paper in detail''
   \<and> r_publication_year row_with_bar = Some 2020
   \<and> r_cited_by_total row_with_bar = Some 40"
proof -
  have "r_title row_with_bar
          = (case p_title parsed_with_chart of
               None \<Rightarrow> Some (s_title stub_2019)
             | Some t \<Rightarrow> if t = [] then Some (s_title stub_2019) else Some t)
        \<and> r_publication_year row_with_bar
          = (case p_pub_year parsed_with_chart of
               None \<Rightarrow> s_year stub_2019
             | Some y \<Rightarrow> if y = 0 then s_year stub_2019 else Some y)
        \<and> r_cited_by_total row_with_bar
          = (case p_cited_by_total parsed_with_chart of
               None \<Rightarrow> s_cited_by_from_list stub_2019
             | Some n \<Rightarrow> Some n)"
    using merge_precedence [where user_id = "''u''" and faculty_name = "''F''"
          and department = "''CS''" and p = stub_2019 and parsed = parsed_with_chart
          and rendered = "[(2020, 7)]", THEN conjunct1]
    by (simp only: merge_with_bar sum.case)
  then have "r_title row_with_bar = Some ''A paper in detail''
        \<and> r_publication_year row_with_bar = Some 2020
        \<and> r_cited_by_total row_with_bar = Some 40"
    by (simp add: parsed_with_chart_def)
  with merge_with_bar show ?thesis by simp
qed

end
